theory Spec2Isabelle
  imports Main "HOL-Library.Word" "HOL-Library.AList"
begin

unbundle bit_operations_syntax

section \<open>The Fast protocol codec of node-fast (lib/fast\_protocol.js)\<close>

text \<open>
  The development embeds \<^verbatim>\<open>fastMessageEncode\<close>, \<^verbatim>\<open>findMatchingCrc\<close>,
  \<^verbatim>\<open>validateCrc\<close>, \<^verbatim>\<open>fastMessageDecode\<close> and the
  \<^verbatim>\<open>FastMessageDecoder\<close> stream of lib/fast\_protocol.js.

  Conventions.
  \<^item> A JavaScript value is a finite tree \<open>jsval\<close>; a property that is absent
    (\<^verbatim>\<open>undefined\<close>) is \<open>None\<close>. Numbers are integers, which is what message
    identifiers, statuses, CRC modes and microsecond timestamps are.
  \<^item> A JavaScript string is represented by the bytes of its UTF-8 encoding, as an
    Isabelle \<open>string\<close>; a \<^verbatim>\<open>Buffer\<close> is a list of bytes.
  \<^item> A thrown exception is the \<open>Inl\<close> of a sum; the protocol errors that the decoder
    returns as values are the datatype \<open>fast_error\<close>.
  \<^item> What the module calls in other packages and in the JavaScript runtime
    (the two crc16 functions, \<^verbatim>\<open>microtime.now\<close>, \<^verbatim>\<open>JSON.stringify\<close>,
    \<^verbatim>\<open>JSON.parse\<close>, the reading of a \<^verbatim>\<open>Buffer\<close> as UTF-8) is the record
    \<open>ext\<close>, a parameter of every function that uses it. The theorems hold for
    every \<open>ext\<close>; the examples use \<open>reference_ext\<close>.
\<close>

subsection \<open>Values\<close>

type_synonym byte = "8 word"

datatype jsval =
    JNull
  | JBool bool
  | JNum int
  | JStr string
  | JArr "jsval list"
  | JObj "(string \<times> jsval) list"

datatype exn =
    AssertionError
  | TypeError
  | RangeError
  | VError_unsupported_status
  | VError_unsupported_crc_mode

subsection \<open>Protocol constants\<close>

definition FP_MSGID_MAX :: nat where "FP_MSGID_MAX = 2 ^ 31 - 1"

definition FP_OFF_VERSION :: nat where "FP_OFF_VERSION = 0"
definition FP_OFF_TYPE :: nat where "FP_OFF_TYPE = FP_OFF_VERSION + 1"
definition FP_OFF_STATUS :: nat where "FP_OFF_STATUS = FP_OFF_TYPE + 1"
definition FP_OFF_MSGID :: nat where "FP_OFF_MSGID = FP_OFF_STATUS + 1"
definition FP_OFF_CRC :: nat where "FP_OFF_CRC = FP_OFF_MSGID + 4"
definition FP_OFF_DATALEN :: nat where "FP_OFF_DATALEN = FP_OFF_CRC + 4"
definition FP_OFF_DATA :: nat where "FP_OFF_DATA = FP_OFF_DATALEN + 4"
definition FP_HEADER_SZ :: nat where "FP_HEADER_SZ = FP_OFF_DATA"

definition FP_STATUS_DATA :: nat where "FP_STATUS_DATA = 1"
definition FP_STATUS_END :: nat where "FP_STATUS_END = 2"
definition FP_STATUS_ERROR :: nat where "FP_STATUS_ERROR = 3"

definition FP_TYPE_JSON :: nat where "FP_TYPE_JSON = 1"

definition FP_VERSION_1 :: nat where "FP_VERSION_1 = 1"
definition FP_VERSION_CURRENT :: nat where "FP_VERSION_CURRENT = FP_VERSION_1"

definition FAST_CHECKSUM_V1 :: nat where "FAST_CHECKSUM_V1 = 1"
definition FAST_CHECKSUM_V1_V2 :: nat where "FAST_CHECKSUM_V1_V2 = 2"
definition FAST_CHECKSUM_V2 :: nat where "FAST_CHECKSUM_V2 = 3"

subsection \<open>The two CRC16 functions\<close>

text \<open>
  Modelled from the spec: the crc16 functions of the packages \<^verbatim>\<open>crc\<close> and
  \<^verbatim>\<open>oldcrc\<close> that lib/fast\_protocol.js requires are not among the sources. The
  spec calls them the correct and the legacy CRC16 variant, functions of the payload
  bytes, and fixes them by reference vectors only. They are taken to be the two
  classical 16-bit checks, both started at 0: the correct one the reflected check with
  polynomial \<open>0xA001\<close> (CRC-16/ARC), the legacy one the check with polynomial
  \<open>0x1021\<close> that ZMODEM and XMODEM use, computed bit by bit.
\<close>

definition arc_shift :: "nat \<Rightarrow> nat" where
  "arc_shift crc = (if odd crc then (crc div 2) XOR 0xA001 else crc div 2)"

definition crc16_v2_add :: "nat \<Rightarrow> char \<Rightarrow> nat" where
  "crc16_v2_add crc c =
     arc_shift (arc_shift (arc_shift (arc_shift (arc_shift (arc_shift (arc_shift (arc_shift
       (crc XOR of_char c))))))))"

definition crc16_v2 :: "string \<Rightarrow> nat" where
  "crc16_v2 s = foldl crc16_v2_add 0 s"

definition xmodem_shift :: "nat \<Rightarrow> nat" where
  "xmodem_shift crc =
     (if crc AND 0x8000 = 0 then (2 * crc) mod 65536
      else ((2 * crc) XOR 0x1021) mod 65536)"

definition crc16_v1_add :: "nat \<Rightarrow> char \<Rightarrow> nat" where
  "crc16_v1_add crc c =
     xmodem_shift (xmodem_shift (xmodem_shift (xmodem_shift (xmodem_shift (xmodem_shift
       (xmodem_shift (xmodem_shift (crc XOR (256 * of_char c)))))))))"

definition crc16_v1 :: "string \<Rightarrow> nat" where
  "crc16_v1 s = foldl crc16_v1_add 0 s"

subsection \<open>What the module uses from other packages and from the runtime\<close>

text \<open>
  \<open>old_crc16\<close> and \<open>new_crc16\<close> are \<^verbatim>\<open>mod_old_crc.crc16\<close> and \<^verbatim>\<open>mod_crc.crc16\<close>
  on a string. \<^verbatim>\<open>findMatchingCrc\<close> also hands \<^verbatim>\<open>mod_old_crc.crc16\<close> the data object
  itself; what that call gives (a number, or an exception) is \<open>old_crc16_object\<close>.
  \<open>microtime_now i\<close> is what \<^verbatim>\<open>mod_microtime.now()\<close> returns in iteration \<open>i\<close> of the
  search loop. \<open>utf8_toString\<close> is \<^verbatim>\<open>buf.toString('utf8')\<close>; \<open>kMaxLength\<close> is the
  largest size \<^verbatim>\<open>new Buffer\<close> accepts.
\<close>

record ext =
  old_crc16 :: "string \<Rightarrow> nat"
  old_crc16_object :: "jsval \<Rightarrow> exn + nat"
  new_crc16 :: "string \<Rightarrow> nat"
  microtime_now :: "nat \<Rightarrow> int"
  JSON_stringify :: "jsval \<Rightarrow> string"
  JSON_parse :: "string \<Rightarrow> jsval option"
  utf8_toString :: "byte list \<Rightarrow> string"
  kMaxLength :: nat

subsection \<open>JavaScript primitives\<close>

definition num :: "nat \<Rightarrow> jsval option" where
  "num n = Some (JNum (int n))"

text \<open>Truthiness, for \<^verbatim>\<open>a || b\<close> and \<^verbatim>\<open>if (a)\<close>.\<close>

fun truthy :: "jsval option \<Rightarrow> bool" where
  "truthy None = False"
| "truthy (Some JNull) = False"
| "truthy (Some (JBool b)) = b"
| "truthy (Some (JNum n)) = (n \<noteq> 0)"
| "truthy (Some (JStr s)) = (s \<noteq> [])"
| "truthy (Some (JArr xs)) = True"
| "truthy (Some (JObj kvs)) = True"

definition js_or :: "jsval option \<Rightarrow> jsval option \<Rightarrow> jsval option" where
  "js_or a b = (if truthy a then a else b)"

text \<open>\<^verbatim>\<open>typeof v == 'object' && v !== null\<close>, which is also \<^verbatim>\<open>assert.object\<close>.\<close>

fun is_object :: "jsval option \<Rightarrow> bool" where
  "is_object (Some (JObj kvs)) = True"
| "is_object (Some (JArr xs)) = True"
| "is_object v = False"

fun is_number :: "jsval option \<Rightarrow> bool" where
  "is_number (Some (JNum n)) = True"
| "is_number v = False"

text \<open>\<^verbatim>\<open>assert.optionalNumber\<close> lets \<^verbatim>\<open>undefined\<close> and \<^verbatim>\<open>null\<close> pass.\<close>

definition is_optional_number :: "jsval option \<Rightarrow> bool" where
  "is_optional_number v = (v = None \<or> v = Some JNull \<or> is_number v)"

fun is_string :: "jsval option \<Rightarrow> bool" where
  "is_string (Some (JStr s)) = True"
| "is_string v = False"

fun is_array :: "jsval option \<Rightarrow> bool" where
  "is_array (Some (JArr xs)) = True"
| "is_array v = False"

text \<open>
  Reading the property \<open>k\<close> of \<open>v\<close>, for the names \<^verbatim>\<open>d\<close>, \<^verbatim>\<open>name\<close> and
  \<^verbatim>\<open>message\<close> that the decoder reads: an array or a primitive has no such property.
\<close>

fun get_prop :: "jsval option \<Rightarrow> string \<Rightarrow> jsval option" where
  "get_prop (Some (JObj kvs)) k = map_of kvs k"
| "get_prop v k = None"

text \<open>
  The statement \<^verbatim>\<open>data.m.uts = v\<close>. It throws a TypeError when \<^verbatim>\<open>data.m\<close> is
  \<^verbatim>\<open>undefined\<close> or \<^verbatim>\<open>null\<close>. On an object it sets the property (in place when it
  exists, as the last property otherwise). On a primitive the module, which is not in
  strict mode, does nothing, and a named property set on an array is not part of its
  JSON value.
\<close>

definition assign_m_uts :: "jsval \<Rightarrow> jsval \<Rightarrow> exn + jsval" where
  "assign_m_uts data v =
     (case data of
        JObj kvs \<Rightarrow>
          (case map_of kvs ''m'' of
             None \<Rightarrow> Inl TypeError
           | Some JNull \<Rightarrow> Inl TypeError
           | Some (JObj mkvs) \<Rightarrow>
               Inr (JObj (AList.update ''m'' (JObj (AList.update ''uts'' v mkvs)) kvs))
           | Some other \<Rightarrow> Inr data)
      | other \<Rightarrow> Inl TypeError)"

subsection \<open>Buffers\<close>

text \<open>The bytes of a string: \<^verbatim>\<open>Buffer.byteLength(s)\<close> is their number.\<close>

definition utf8_bytes :: "string \<Rightarrow> byte list" where
  "utf8_bytes s = map of_char s"

definition readUInt8 :: "byte list \<Rightarrow> nat \<Rightarrow> nat" where
  "readUInt8 buf off = unat (buf ! off)"

definition readUInt32BE :: "byte list \<Rightarrow> nat \<Rightarrow> nat" where
  "readUInt32BE buf off =
     ((unat (buf ! off) * 256 + unat (buf ! (off + 1))) * 256
        + unat (buf ! (off + 2))) * 256 + unat (buf ! (off + 3))"

text \<open>The four bytes that \<^verbatim>\<open>writeUInt32BE\<close> stores, for a value below \<open>2 ^ 32\<close>.\<close>

definition uint32be :: "nat \<Rightarrow> byte list" where
  "uint32be v =
     [of_nat (v div 2 ^ 24), of_nat (v div 2 ^ 16), of_nat (v div 2 ^ 8), of_nat v]"

subsection \<open>findMatchingCrc\<close>

text \<open>
  The loop of \<^verbatim>\<open>findMatchingCrc\<close>, from iteration \<open>i\<close> on. The result is the data
  object as the loop leaves it, and what the function returns (crc and serialization)
  or throws.
\<close>

function findMatchingCrc_loop ::
  "ext \<Rightarrow> nat \<Rightarrow> nat \<Rightarrow> jsval \<Rightarrow> string \<Rightarrow> jsval \<times> (exn + nat \<times> string)" where
  "findMatchingCrc_loop E matching_crc i data data_encoded =
     (if i < 500000 then
        (let crc16_old = old_crc16 E data_encoded;
             crc16_new = new_crc16 E data_encoded
         in if crc16_old = crc16_new then (data, Inr (crc16_old, data_encoded))
            else (case assign_m_uts data (JNum (microtime_now E i)) of
                    Inl e \<Rightarrow> (data, Inl e)
                  | Inr data' \<Rightarrow>
                      findMatchingCrc_loop E matching_crc (i + 1) data'
                        (JSON_stringify E data')))
      else (data, Inr (matching_crc, data_encoded)))"
  by pat_completeness auto
termination
  by (relation "measure (\<lambda>(E, matching_crc, i, data, data_encoded). 500000 - i)") auto

declare findMatchingCrc_loop.simps [simp del]

definition findMatchingCrc :: "ext \<Rightarrow> jsval \<Rightarrow> jsval \<times> (exn + nat \<times> string)" where
  "findMatchingCrc E data =
     (case old_crc16_object E data of
        Inl e \<Rightarrow> (data, Inl e)
      | Inr matching_crc \<Rightarrow>
          findMatchingCrc_loop E matching_crc 0 data (JSON_stringify E data))"

subsection \<open>validateCrc\<close>

text \<open>
  The protocol errors, named by their \<^verbatim>\<open>fastReason\<close>, with the other members of
  \<^verbatim>\<open>info\<close>: the value found for a bad header field; for \<open>bad_crc\<close> the members
  \<^verbatim>\<open>crcExpected\<close>, \<^verbatim>\<open>crcCalculated\<close>, \<^verbatim>\<open>crcCalculatedV1\<close> and
  \<^verbatim>\<open>crcCalculatedV2\<close>.
\<close>

datatype fast_error =
    unsupported_version nat
  | unsupported_type nat
  | unsupported_status nat
  | invalid_msgid nat
  | bad_crc nat "nat option" "nat option" "nat option"
  | invalid_json
  | bad_data
  | bad_data_d
  | bad_error
  | incomplete_message

fun fastReason :: "fast_error \<Rightarrow> string" where
  "fastReason (unsupported_version v) = ''unsupported_version''"
| "fastReason (unsupported_type t) = ''unsupported_type''"
| "fastReason (unsupported_status st) = ''unsupported_status''"
| "fastReason (invalid_msgid mid) = ''invalid_msgid''"
| "fastReason (bad_crc expected calculated v1 v2) = ''bad_crc''"
| "fastReason invalid_json = ''invalid_json''"
| "fastReason bad_data = ''bad_data''"
| "fastReason bad_data_d = ''bad_data_d''"
| "fastReason bad_error = ''bad_error''"
| "fastReason incomplete_message = ''incomplete_message''"

definition crcValidationError ::
  "jsval option \<Rightarrow> nat \<Rightarrow> nat option \<Rightarrow> nat option \<Rightarrow> fast_error" where
  "crcValidationError crcMode headerCrc v1CalculatedCrc v2CalculatedCrc =
     (if crcMode = num FAST_CHECKSUM_V1 then bad_crc headerCrc v1CalculatedCrc None None
      else if crcMode = num FAST_CHECKSUM_V1_V2
        then bad_crc headerCrc None v1CalculatedCrc v2CalculatedCrc
      else if crcMode = num FAST_CHECKSUM_V2 then bad_crc headerCrc v2CalculatedCrc None None
      else bad_crc headerCrc None None None)"

record crc_validation =
  decodedCrcMode :: "nat option"
  error :: "fast_error option"

definition validateCrc :: "ext \<Rightarrow> jsval option \<Rightarrow> nat \<Rightarrow> string \<Rightarrow> exn + crc_validation" where
  "validateCrc E crcMode headerCrc data =
     (if crcMode = num FAST_CHECKSUM_V1 then
        (let v1CalculatedCrc = old_crc16 E data
         in Inr \<lparr>decodedCrcMode = None,
                 error = (if v1CalculatedCrc \<noteq> headerCrc
                          then Some (crcValidationError crcMode headerCrc
                                       (Some v1CalculatedCrc) None)
                          else None)\<rparr>)
      else if crcMode = num FAST_CHECKSUM_V1_V2 then
        (let v1CalculatedCrc = old_crc16 E data;
             v2CalculatedCrc = new_crc16 E data
         in if v1CalculatedCrc \<noteq> headerCrc \<and> v2CalculatedCrc \<noteq> headerCrc then
              Inr \<lparr>decodedCrcMode = None,
                   error = Some (crcValidationError crcMode headerCrc
                                   (Some v1CalculatedCrc) (Some v2CalculatedCrc))\<rparr>
            else if v1CalculatedCrc = headerCrc \<and> v2CalculatedCrc = headerCrc then
              Inr \<lparr>decodedCrcMode = Some FAST_CHECKSUM_V1_V2, error = None\<rparr>
            else if v2CalculatedCrc = headerCrc then
              Inr \<lparr>decodedCrcMode = Some FAST_CHECKSUM_V2, error = None\<rparr>
            else
              Inr \<lparr>decodedCrcMode = Some FAST_CHECKSUM_V1, error = None\<rparr>)
      else if crcMode = num FAST_CHECKSUM_V2 then
        (let v2CalculatedCrc = new_crc16 E data
         in Inr \<lparr>decodedCrcMode = Some FAST_CHECKSUM_V2,
                 error = (if v2CalculatedCrc \<noteq> headerCrc
                          then Some (crcValidationError crcMode headerCrc
                                       None (Some v2CalculatedCrc))
                          else None)\<rparr>)
      else Inl AssertionError)"

subsection \<open>Messages\<close>

text \<open>
  A logical message, as \<^verbatim>\<open>fastMessageEncode\<close> receives it and as
  \<^verbatim>\<open>fastMessageDecode\<close> returns it: each property is a value or absent.
\<close>

record message =
  msgid :: "jsval option"
  status :: "jsval option"
  data :: "jsval option"
  crc_mode :: "jsval option"

fun msgid_ok :: "jsval option \<Rightarrow> bool" where
  "msgid_ok (Some (JNum n)) = (0 \<le> n \<and> n \<le> int FP_MSGID_MAX)"
| "msgid_ok v = False"

subsection \<open>fastMessageEncode\<close>

text \<open>
  The result is the message as the call leaves it (its \<^verbatim>\<open>data\<close> may have been
  assigned to) and the buffer returned or the exception thrown.
\<close>

definition fastMessageEncode ::
  "ext \<Rightarrow> message \<Rightarrow> jsval option \<Rightarrow> message \<times> (exn + byte list)" where
  "fastMessageEncode E msg default_crc_mode =
     (if \<not> msgid_ok (msgid msg) then (msg, Inl AssertionError)
      else if \<not> is_object (data msg) then (msg, Inl AssertionError)
      else if \<not> is_number (status msg) then (msg, Inl AssertionError)
      else if \<not> is_optional_number (crc_mode msg) then (msg, Inl AssertionError)
      else if truthy default_crc_mode \<and> default_crc_mode \<noteq> num FAST_CHECKSUM_V1
              \<and> default_crc_mode \<noteq> num FAST_CHECKSUM_V2
              \<and> default_crc_mode \<noteq> num FAST_CHECKSUM_V1_V2
        then (msg, Inl AssertionError)
      else if status msg \<noteq> num FP_STATUS_DATA \<and> status msg \<noteq> num FP_STATUS_END
              \<and> status msg \<noteq> num FP_STATUS_ERROR
        then (msg, Inl VError_unsupported_status)
      else
        (case (msgid msg, status msg, data msg) of
           (Some (JNum mid), Some (JNum st), Some d) \<Rightarrow>
             (let data_encoded = JSON_stringify E d;
                  crc_mode = js_or (js_or (crc_mode msg) default_crc_mode)
                               (num FAST_CHECKSUM_V1);
                  (d', match_result) =
                    (if crc_mode = num FAST_CHECKSUM_V1 then findMatchingCrc E d
                     else if crc_mode = num FAST_CHECKSUM_V2
                       then (d, Inr (new_crc16 E data_encoded, data_encoded))
                     else if crc_mode = num FAST_CHECKSUM_V1_V2 then findMatchingCrc E d
                     else (d, Inl VError_unsupported_crc_mode));
                  msg' = msg\<lparr>data := Some d'\<rparr>
              in case match_result of
                   Inl e \<Rightarrow> (msg', Inl e)
                 | Inr (crc16, data_encoded) \<Rightarrow>
                     (let datalen = length (utf8_bytes data_encoded)
                      in if kMaxLength E < FP_HEADER_SZ + datalen
                           then (msg', Inl RangeError)
                         else if 2 ^ 32 \<le> crc16 \<or> 2 ^ 32 \<le> datalen
                           then (msg', Inl RangeError)
                         else
                           (msg', Inr ([of_nat FP_VERSION_CURRENT, of_nat FP_TYPE_JSON,
                                        of_nat (nat st)]
                                       @ uint32be (nat mid) @ uint32be crc16
                                       @ uint32be datalen @ utf8_bytes data_encoded))))
         | other \<Rightarrow> (msg, Inl AssertionError)))"

subsection \<open>fastMessageDecode\<close>

text \<open>The header that the decoder has read from the first 15 bytes.\<close>

record header =
  hdr_version :: nat
  hdr_type :: nat
  hdr_status :: nat
  hdr_msgid :: nat
  hdr_crc :: nat
  hdr_datalen :: nat

text \<open>\<^verbatim>\<open>fastMessageDecode\<close> returns an \<^verbatim>\<open>Error\<close> or the decoded message.\<close>

datatype decoded = Error fast_error | Message message

definition fastMessageDecode ::
  "ext \<Rightarrow> header \<Rightarrow> byte list \<Rightarrow> jsval option \<Rightarrow> exn + decoded" where
  "fastMessageDecode E hdr buffer crcMode =
     (let datalen = hdr_datalen hdr
      in if length buffer \<noteq> FP_OFF_DATA + datalen then Inl AssertionError
         else
           (let datastr = utf8_toString E (drop FP_OFF_DATA buffer);
                crcMode = js_or crcMode (num FAST_CHECKSUM_V1)
            in case validateCrc E crcMode (hdr_crc hdr) datastr of
                 Inl e \<Rightarrow> Inl e
               | Inr crcValidationResult \<Rightarrow>
                   (case error crcValidationResult of
                      Some err \<Rightarrow> Inr (Error err)
                    | None \<Rightarrow>
                        (case JSON_parse E datastr of
                           None \<Rightarrow> Inr (Error invalid_json)
                         | Some json \<Rightarrow>
                             if \<not> is_object (Some json) then Inr (Error bad_data)
                             else if (hdr_status hdr = FP_STATUS_DATA
                                      \<or> hdr_status hdr = FP_STATUS_END)
                                     \<and> \<not> is_array (get_prop (Some json) ''d'')
                               then Inr (Error bad_data_d)
                             else if hdr_status hdr = FP_STATUS_ERROR
                                     \<and> (\<not> is_object (get_prop (Some json) ''d'')
                                          \<or> \<not> is_string
                                                (get_prop (get_prop (Some json) ''d'') ''name'')
                                          \<or> \<not> is_string
                                                (get_prop (get_prop (Some json) ''d'')
                                                   ''message''))
                               then Inr (Error bad_error)
                             else
                               Inr (Message
                                 \<lparr>msgid = num (hdr_msgid hdr),
                                  status = num (hdr_status hdr),
                                  data = Some json,
                                  crc_mode = (case decodedCrcMode crcValidationResult of
                                                None \<Rightarrow> None
                                              | Some m \<Rightarrow> num m)\<rparr>)))))"

subsection \<open>FastMessageDecoder\<close>

text \<open>
  The state of the stream; \<open>dec_crc_mode\<close> is its property \<^verbatim>\<open>crc_mode\<close>, and
  \<^verbatim>\<open>null\<close> is \<open>None\<close>.
\<close>

record decoder =
  md_buffer :: "byte list option"
  md_havebytes :: nat
  md_done :: bool
  md_error :: "fast_error option"
  md_pushing :: bool
  md_version :: "nat option"
  md_type :: "nat option"
  md_status :: "nat option"
  md_msgid :: "nat option"
  md_crc :: "nat option"
  md_datalen :: "nat option"
  md_nmessages :: nat
  md_nbytes :: nat
  dec_crc_mode :: "jsval option"

definition FastMessageDecoder :: "jsval option \<Rightarrow> decoder" where
  "FastMessageDecoder = (\<lambda>crc_mode.
     \<lparr>md_buffer = None, md_havebytes = 0, md_done = False, md_error = None,
      md_pushing = False, md_version = None, md_type = None, md_status = None,
      md_msgid = None, md_crc = None, md_datalen = None, md_nmessages = 0,
      md_nbytes = 0, dec_crc_mode = crc_mode\<rparr>)"

definition clear_header :: "decoder \<Rightarrow> decoder" where
  "clear_header s =
     s\<lparr>md_version := None, md_type := None, md_status := None, md_msgid := None,
       md_crc := None, md_datalen := None\<rparr>"

text \<open>
  One pass through the body of the \<^verbatim>\<open>while\<close> loop of \<^verbatim>\<open>decode\<close>: it ends in a
  \<^verbatim>\<open>break\<close>, in an exception (a failed assertion), or at the bottom of the body
  after \<^verbatim>\<open>this.push(msg)\<close>.
\<close>

datatype iteration = Break decoder | Throw exn decoder | Push message decoder

definition decode_iteration :: "ext \<Rightarrow> decoder \<Rightarrow> iteration" where
  "decode_iteration E s =
     (case md_buffer s of
        None \<Rightarrow> Throw TypeError s
      | Some buf \<Rightarrow>
          if length buf \<noteq> md_havebytes s then Throw AssertionError s
          else if md_error s \<noteq> None then Throw AssertionError s
          else if md_version s \<noteq> None then Throw AssertionError s
          else
            (let s1 = s\<lparr>md_version := Some (readUInt8 buf FP_OFF_VERSION)\<rparr>
             in if md_version s1 \<noteq> Some FP_VERSION_CURRENT then
                  Break (s1\<lparr>md_error :=
                    Some (unsupported_version (readUInt8 buf FP_OFF_VERSION))\<rparr>)
                else
            (let s2 = s1\<lparr>md_type := Some (readUInt8 buf FP_OFF_TYPE)\<rparr>
             in if md_type s2 \<noteq> Some FP_TYPE_JSON then
                  Break (s2\<lparr>md_error :=
                    Some (unsupported_type (readUInt8 buf FP_OFF_TYPE))\<rparr>)
                else
            (let s3 = s2\<lparr>md_status := Some (readUInt8 buf FP_OFF_STATUS)\<rparr>
             in if md_status s3 \<noteq> Some FP_STATUS_DATA \<and> md_status s3 \<noteq> Some FP_STATUS_END
                   \<and> md_status s3 \<noteq> Some FP_STATUS_ERROR then
                  Break (s3\<lparr>md_error :=
                    Some (unsupported_status (readUInt8 buf FP_OFF_STATUS))\<rparr>)
                else
            (let s4 = s3\<lparr>md_msgid := Some (readUInt32BE buf FP_OFF_MSGID)\<rparr>
             in if FP_MSGID_MAX < readUInt32BE buf FP_OFF_MSGID then
                  Break (s4\<lparr>md_error :=
                    Some (invalid_msgid (readUInt32BE buf FP_OFF_MSGID))\<rparr>)
                else
            (let datalen = readUInt32BE buf FP_OFF_DATALEN;
                 s5 = s4\<lparr>md_crc := Some (readUInt32BE buf FP_OFF_CRC),
                         md_datalen := Some datalen\<rparr>
             in if md_havebytes s5 < FP_HEADER_SZ + datalen then Break (clear_header s5)
                else
            (let msgbuf = take (FP_HEADER_SZ + datalen) buf;
                 s6 = s5\<lparr>md_buffer := Some (drop (FP_HEADER_SZ + datalen) buf),
                         md_havebytes := md_havebytes s5 - length msgbuf\<rparr>
             in case fastMessageDecode E
                       \<lparr>hdr_version = readUInt8 buf FP_OFF_VERSION,
                        hdr_type = readUInt8 buf FP_OFF_TYPE,
                        hdr_status = readUInt8 buf FP_OFF_STATUS,
                        hdr_msgid = readUInt32BE buf FP_OFF_MSGID,
                        hdr_crc = readUInt32BE buf FP_OFF_CRC,
                        hdr_datalen = datalen\<rparr>
                       msgbuf (dec_crc_mode s6) of
                  Inl e \<Rightarrow> Throw e s6
                | Inr (Error err) \<Rightarrow> Break (s6\<lparr>md_error := Some err\<rparr>)
                | Inr (Message msg) \<Rightarrow>
                    Push msg ((clear_header s6)
                      \<lparr>md_pushing := False,
                       md_nmessages := md_nmessages s6 + 1\<rparr>))))))))"

text \<open>
  The \<^verbatim>\<open>while\<close> loop: the messages pushed, in order, the state in which the loop is
  left, and the exception if one was thrown.
\<close>

function decode_loop :: "ext \<Rightarrow> decoder \<Rightarrow> message list \<times> decoder \<times> exn option" where
  "decode_loop E s =
     (if FP_HEADER_SZ \<le> md_havebytes s then
        (case decode_iteration E s of
           Break s' \<Rightarrow> ([], s', None)
         | Throw e s' \<Rightarrow> ([], s', Some e)
         | Push msg s' \<Rightarrow>
             (case decode_loop E s' of (msgs, s'', x) \<Rightarrow> (msg # msgs, s'', x)))
      else ([], s, None))"
  by pat_completeness auto
termination
  by (relation "measure (\<lambda>(E, s). md_havebytes s)")
     (auto simp: decode_iteration_def Let_def clear_header_def FP_HEADER_SZ_def
             FP_OFF_DATA_def FP_OFF_DATALEN_def FP_OFF_CRC_def FP_OFF_MSGID_def
             FP_OFF_STATUS_def FP_OFF_TYPE_def FP_OFF_VERSION_def
           split: option.splits if_splits sum.splits decoded.splits)

declare decode_loop.simps [simp del]

text \<open>
  \<^verbatim>\<open>decode(callback)\<close>: the messages pushed, the new state, and either the exception
  thrown or what became of the callback.
\<close>

datatype callback = NotCalled | Called "fast_error option"

definition decode ::
  "ext \<Rightarrow> decoder \<Rightarrow> message list \<times> decoder \<times> (exn + callback)" where
  "decode E s =
     (if md_pushing s then ([], s, Inr NotCalled)
      else if md_error s \<noteq> None then ([], s, Inl AssertionError)
      else
        (case decode_loop E s of
           (msgs, s1, Some e) \<Rightarrow> (msgs, s1, Inl e)
         | (msgs, s1, None) \<Rightarrow>
             (let s2 = (if md_error s1 = None \<and> 0 < md_havebytes s1 \<and> md_done s1
                        then s1\<lparr>md_error := Some incomplete_message\<rparr> else s1)
              in (msgs, s2, Inr (Called (md_error s2))))))"

text \<open>\<^verbatim>\<open>Buffer.concat(list, totalLength)\<close>: cut, or filled with zeros, to the length.\<close>

definition Buffer_concat :: "byte list list \<Rightarrow> nat \<Rightarrow> byte list" where
  "Buffer_concat bufs totalLength =
     take totalLength (concat bufs @ replicate (totalLength - length (concat bufs)) 0)"

definition transform ::
  "ext \<Rightarrow> decoder \<Rightarrow> byte list \<Rightarrow> message list \<times> decoder \<times> (exn + callback)" where
  "transform E s chunk =
     (let s1 = s\<lparr>md_havebytes := md_havebytes s + length chunk\<rparr>
      in case md_buffer s1 of
           None \<Rightarrow>
             if md_havebytes s1 \<noteq> length chunk then ([], s1, Inl AssertionError)
             else decode E (s1\<lparr>md_buffer := Some chunk,
                               md_nbytes := md_nbytes s1 + length chunk\<rparr>)
         | Some b \<Rightarrow>
             decode E (s1\<lparr>md_buffer := Some (Buffer_concat [b, chunk] (md_havebytes s1)),
                           md_nbytes := md_nbytes s1 + length chunk\<rparr>))"

definition flush :: "ext \<Rightarrow> decoder \<Rightarrow> message list \<times> decoder \<times> (exn + callback)" where
  "flush E s = decode E (s\<lparr>md_done := True\<rparr>)"

subsection \<open>A reference instance of the imports\<close>

text \<open>
  The examples below run the codec on concrete messages. They use \<open>stringify\<close>, which
  is \<^verbatim>\<open>JSON.stringify\<close> on the values of \<open>jsval\<close> (numbers of magnitude below
  \<open>10 ^ 21\<close> print as decimal integers), the two CRC16 functions above, a clock that
  advances by one microsecond per iteration, and \<open>parse_examples\<close>, which is
  \<^verbatim>\<open>JSON.parse\<close> on the payloads that the examples use: the JSON texts listed, and
  \<^verbatim>\<open>{\<close>, which is not JSON. For the data object itself the old crc16 is taken to
  return 0; the examples use of this only that the call returns, since in each of them
  the search finds a serialization on which the two CRC16 functions agree.
\<close>

definition digit_char :: "nat \<Rightarrow> char" where
  "digit_char n = ''0123456789'' ! n"

function decimal :: "nat \<Rightarrow> string" where
  "decimal n = (if n < 10 then [digit_char n] else decimal (n div 10) @ [digit_char (n mod 10)])"
  by pat_completeness auto
termination
  by (relation "measure id") auto

declare decimal.simps [simp del]

definition number_string :: "int \<Rightarrow> string" where
  "number_string i = (if i < 0 then CHR ''-'' # decimal (nat (- i)) else decimal (nat i))"

definition hex_char :: "nat \<Rightarrow> char" where
  "hex_char n = ''0123456789abcdef'' ! n"

definition quote_char :: "char \<Rightarrow> string" where
  "quote_char c =
     (if c = CHR 0x22 then [CHR 0x5C, CHR 0x22]
      else if c = CHR 0x5C then [CHR 0x5C, CHR 0x5C]
      else if c = CHR 0x08 then [CHR 0x5C, CHR ''b'']
      else if c = CHR 0x0C then [CHR 0x5C, CHR ''f'']
      else if c = CHR 0x0A then [CHR 0x5C, CHR ''n'']
      else if c = CHR 0x0D then [CHR 0x5C, CHR ''r'']
      else if c = CHR 0x09 then [CHR 0x5C, CHR ''t'']
      else if (of_char c :: nat) < 32
        then [CHR 0x5C, CHR ''u'', CHR ''0'', CHR ''0'',
              hex_char (of_char c div 16), hex_char (of_char c mod 16)]
      else [c])"

definition quote :: "string \<Rightarrow> string" where
  "quote s = [CHR 0x22] @ concat (map quote_char s) @ [CHR 0x22]"

fun join :: "string list \<Rightarrow> string" where
  "join [] = []"
| "join [x] = x"
| "join (x # y # ys) = x @ '','' @ join (y # ys)"

fun stringify :: "jsval \<Rightarrow> string" where
  "stringify JNull = ''null''"
| "stringify (JBool b) = (if b then ''true'' else ''false'')"
| "stringify (JNum n) = number_string n"
| "stringify (JStr s) = quote s"
| "stringify (JArr xs) = ''['' @ join (map stringify xs) @ '']''"
| "stringify (JObj kvs) =
     ''{'' @ join (map (\<lambda>kv. quote (fst kv) @ '':'' @ stringify (snd kv)) kvs) @ ''}''"

definition parse_examples :: "string \<Rightarrow> jsval option" where
  "parse_examples =
     map_of
       [(''{\"d\":[]}'', JObj [(''d'', JArr [])]),
        (''{\"m\":{\"uts\":1600000000039367},\"d\":[]}'',
           JObj [(''m'', JObj [(''uts'', JNum 1600000000039367)]), (''d'', JArr [])]),
        (''null'', JNull),
        (''{}'', JObj []),
        (''{\"d\":{\"name\":\"E\"}}'', JObj [(''d'', JObj [(''name'', JStr ''E'')])])]"

definition reference_ext :: ext where
  "reference_ext =
     \<lparr>old_crc16 = crc16_v1,
      old_crc16_object = (\<lambda>d. Inr 0),
      new_crc16 = crc16_v2,
      microtime_now = (\<lambda>i. 1600000000039367 + int i),
      JSON_stringify = stringify,
      JSON_parse = parse_examples,
      utf8_toString = map (\<lambda>b. char_of (unat b)),
      kMaxLength = 2 ^ 30 - 1\<rparr>"

text \<open>
  The message of the examples: its serialization has the same CRC16, 62680, in both
  variants, so the search of \<^verbatim>\<open>findMatchingCrc\<close> ends in its first iteration.
\<close>

definition example_data :: jsval where
  "example_data = JObj [(''m'', JObj [(''uts'', JNum 1600000000039367)]), (''d'', JArr [])]"

definition example_payload :: string where
  "example_payload = ''{\"m\":{\"uts\":1600000000039367},\"d\":[]}''"

definition example_message :: message where
  "example_message =
     \<lparr>msgid = num 7, status = num FP_STATUS_DATA, data = Some example_data,
      crc_mode = None\<rparr>"

definition example_frame :: "byte list" where
  "example_frame =
     [1, 1, 1, 0, 0, 0, 7, 0, 0, 244, 216, 0, 0, 0, 37] @ utf8_bytes example_payload"

text \<open>
  The same data with the timestamp 0: the two CRC16 values of its serialization differ,
  and the first reading of the clock gives the data of the example message.
\<close>

definition example_data_0 :: jsval where
  "example_data_0 = JObj [(''m'', JObj [(''uts'', JNum 0)]), (''d'', JArr [])]"


definition example_payload_5 :: string where
  "example_payload_5 = ''{\"m\":5,\"d\":[]}''"


text \<open>
  A chunk that holds the frame of the example message and two more bytes, and the
  decoder (in mode V1\_V2) after it has received this chunk. \<open>holding buf\<close> is a new
  decoder that has taken in the bytes \<open>buf\<close> and not yet looked at them, and
  \<open>example_header\<close> is the header of a frame with the given status and payload, with
  the correct CRC16.
\<close>

definition example_chunk :: "byte list" where
  "example_chunk = example_frame @ [1, 1]"

definition example_decoder :: decoder where
  "example_decoder =
     (FastMessageDecoder (num FAST_CHECKSUM_V1_V2))
       \<lparr>md_buffer := Some [1, 1], md_havebytes := 2, md_nmessages := 1, md_nbytes := 54\<rparr>"

definition holding :: "byte list \<Rightarrow> decoder" where
  "holding buf =
     (FastMessageDecoder None)
       \<lparr>md_buffer := Some buf, md_havebytes := length buf, md_nbytes := length buf\<rparr>"


section \<open>Notions used in the statements\<close>

text \<open>
  The CRC mode under which \<^verbatim>\<open>fastMessageEncode\<close> encodes:
  \<^verbatim>\<open>msg.crc_mode || default_crc_mode || FAST_CHECKSUM_V1\<close>.
\<close>

definition effective_crc_mode :: "message \<Rightarrow> jsval option \<Rightarrow> jsval option" where
  "effective_crc_mode msg default_crc_mode =
     js_or (js_or (crc_mode msg) default_crc_mode) (num FAST_CHECKSUM_V1)"

text \<open>The checks of the arguments that \<^verbatim>\<open>fastMessageEncode\<close> makes first.\<close>

definition default_crc_mode_ok :: "jsval option \<Rightarrow> bool" where
  "default_crc_mode_ok dflt =
     (\<not> truthy dflt \<or> dflt = num FAST_CHECKSUM_V1 \<or> dflt = num FAST_CHECKSUM_V2
      \<or> dflt = num FAST_CHECKSUM_V1_V2)"

definition status_ok :: "jsval option \<Rightarrow> bool" where
  "status_ok st = (st = num FP_STATUS_DATA \<or> st = num FP_STATUS_END \<or> st = num FP_STATUS_ERROR)"

text \<open>What \<^verbatim>\<open>fastMessageEncode\<close> does once these checks have passed.\<close>

definition encode_checked ::
  "ext \<Rightarrow> message \<Rightarrow> jsval option \<Rightarrow> int \<Rightarrow> int \<Rightarrow> jsval \<Rightarrow> message \<times> (exn + byte list)" where
  "encode_checked E msg default_crc_mode mid st d =
     (let data_encoded = JSON_stringify E d;
          (d', match_result) =
            (if effective_crc_mode msg default_crc_mode = num FAST_CHECKSUM_V1
               then findMatchingCrc E d
             else if effective_crc_mode msg default_crc_mode = num FAST_CHECKSUM_V2
               then (d, Inr (new_crc16 E data_encoded, data_encoded))
             else if effective_crc_mode msg default_crc_mode = num FAST_CHECKSUM_V1_V2
               then findMatchingCrc E d
             else (d, Inl VError_unsupported_crc_mode));
          msg' = msg\<lparr>data := Some d'\<rparr>
      in case match_result of
           Inl e \<Rightarrow> (msg', Inl e)
         | Inr (crc16, data_encoded) \<Rightarrow>
             (let datalen = length (utf8_bytes data_encoded)
              in if kMaxLength E < FP_HEADER_SZ + datalen
                   then (msg', Inl RangeError)
                 else if 2 ^ 32 \<le> crc16 \<or> 2 ^ 32 \<le> datalen
                   then (msg', Inl RangeError)
                 else
                   (msg', Inr ([of_nat FP_VERSION_CURRENT, of_nat FP_TYPE_JSON,
                                of_nat (nat st)]
                               @ uint32be (nat mid) @ uint32be crc16
                               @ uint32be datalen @ utf8_bytes data_encoded))))"

text \<open>The header fields of the frame at the front of a buffer.\<close>

definition read_header :: "byte list \<Rightarrow> header" where
  "read_header buf =
     \<lparr>hdr_version = readUInt8 buf FP_OFF_VERSION,
      hdr_type = readUInt8 buf FP_OFF_TYPE,
      hdr_status = readUInt8 buf FP_OFF_STATUS,
      hdr_msgid = readUInt32BE buf FP_OFF_MSGID,
      hdr_crc = readUInt32BE buf FP_OFF_CRC,
      hdr_datalen = readUInt32BE buf FP_OFF_DATALEN\<rparr>"

text \<open>
  A logical message that has passed every check of the decoder: its identifier is in
  range, its status is DATA, END or ERROR, its data is a non-null object and \<^verbatim>\<open>d\<close> has
  the shape that the status asks for.
\<close>

definition fully_validated :: "message \<Rightarrow> bool" where
  "fully_validated m =
     (msgid_ok (msgid m)
      \<and> (status m = num FP_STATUS_DATA \<or> status m = num FP_STATUS_END
           \<or> status m = num FP_STATUS_ERROR)
      \<and> is_object (data m)
      \<and> (if status m = num FP_STATUS_ERROR
         then is_object (get_prop (data m) ''d'')
              \<and> is_string (get_prop (get_prop (data m) ''d'') ''name'')
              \<and> is_string (get_prop (get_prop (data m) ''d'') ''message'')
         else is_array (get_prop (data m) ''d'')))"

text \<open>
  \<open>m\<close> is what \<^verbatim>\<open>fastMessageDecode\<close> returns for a complete frame with a valid header.
\<close>

definition validated_frame :: "ext \<Rightarrow> jsval option \<Rightarrow> message \<Rightarrow> bool" where
  "validated_frame E crcMode m =
     (\<exists>hdr msgbuf.
        fastMessageDecode E hdr msgbuf crcMode = Inr (Message m)
        \<and> hdr_version hdr = FP_VERSION_CURRENT \<and> hdr_type hdr = FP_TYPE_JSON
        \<and> (hdr_status hdr = FP_STATUS_DATA \<or> hdr_status hdr = FP_STATUS_END
             \<or> hdr_status hdr = FP_STATUS_ERROR)
        \<and> hdr_msgid hdr \<le> FP_MSGID_MAX)"

text \<open>
  The message that \<^verbatim>\<open>fastMessageDecode\<close> returns for the bytes \<open>f\<close> of one frame,
  with the header read from \<open>f\<close>, if it returns one.
\<close>

definition frame_message :: "ext \<Rightarrow> jsval option \<Rightarrow> byte list \<Rightarrow> message option" where
  "frame_message E crcMode f =
     (case fastMessageDecode E (read_header f) f crcMode of
        Inr (Message m) \<Rightarrow> Some m
      | other \<Rightarrow> None)"

text \<open>
  \<open>f\<close> is one complete frame that the decoder accepts: its header passes the four
  checks, it has the length that its header gives, and its payload decodes to a message.
\<close>

definition good_frame :: "ext \<Rightarrow> jsval option \<Rightarrow> byte list \<Rightarrow> bool" where
  "good_frame E crcMode f =
     (hdr_version (read_header f) = FP_VERSION_CURRENT
      \<and> hdr_type (read_header f) = FP_TYPE_JSON
      \<and> (hdr_status (read_header f) = FP_STATUS_DATA
           \<or> hdr_status (read_header f) = FP_STATUS_END
           \<or> hdr_status (read_header f) = FP_STATUS_ERROR)
      \<and> hdr_msgid (read_header f) \<le> FP_MSGID_MAX
      \<and> length f = FP_HEADER_SZ + hdr_datalen (read_header f)
      \<and> frame_message E crcMode f \<noteq> None)"

section \<open>Lemmas\<close>

lemmas fp_offsets =
  FP_OFF_VERSION_def FP_OFF_TYPE_def FP_OFF_STATUS_def FP_OFF_MSGID_def
  FP_OFF_CRC_def FP_OFF_DATALEN_def FP_OFF_DATA_def FP_HEADER_SZ_def

lemmas fp_consts =
  FP_STATUS_DATA_def FP_STATUS_END_def FP_STATUS_ERROR_def FP_TYPE_JSON_def
  FP_VERSION_1_def FP_VERSION_CURRENT_def
  FAST_CHECKSUM_V1_def FAST_CHECKSUM_V1_V2_def FAST_CHECKSUM_V2_def

lemma fastMessageDecode_Message:
  assumes "fastMessageDecode E hdr buffer crcMode = Inr (Message m)"
  shows "\<exists>v json. length buffer = FP_OFF_DATA + hdr_datalen hdr
           \<and> validateCrc E (js_or crcMode (num FAST_CHECKSUM_V1)) (hdr_crc hdr)
                (utf8_toString E (drop FP_OFF_DATA buffer)) = Inr v
           \<and> error v = None
           \<and> JSON_parse E (utf8_toString E (drop FP_OFF_DATA buffer)) = Some json
           \<and> is_object (Some json)
           \<and> ((hdr_status hdr = FP_STATUS_DATA \<or> hdr_status hdr = FP_STATUS_END)
                \<longrightarrow> is_array (get_prop (Some json) ''d''))
           \<and> (hdr_status hdr = FP_STATUS_ERROR
                \<longrightarrow> is_object (get_prop (Some json) ''d'')
                    \<and> is_string (get_prop (get_prop (Some json) ''d'') ''name'')
                    \<and> is_string (get_prop (get_prop (Some json) ''d'') ''message''))
           \<and> m = \<lparr>msgid = num (hdr_msgid hdr), status = num (hdr_status hdr),
                   data = Some json,
                   crc_mode = (case decodedCrcMode v of None \<Rightarrow> None | Some c \<Rightarrow> num c)\<rparr>"
  using assms
  by (auto simp: fastMessageDecode_def Let_def split: if_splits sum.splits option.splits)

lemma fastMessageDecode_fully_validated:
  assumes "fastMessageDecode E hdr buffer crcMode = Inr (Message m)"
    and "hdr_status hdr = FP_STATUS_DATA \<or> hdr_status hdr = FP_STATUS_END
         \<or> hdr_status hdr = FP_STATUS_ERROR"
    and "hdr_msgid hdr \<le> FP_MSGID_MAX"
  shows "fully_validated m"
  using fastMessageDecode_Message [OF assms(1)] assms(2,3)
  by (auto simp: fully_validated_def num_def fp_consts)

lemma decode_iteration_Push:
  assumes "decode_iteration E s = Push m s'"
  shows "\<exists>hdr msgbuf.
           fastMessageDecode E hdr msgbuf (dec_crc_mode s) = Inr (Message m)
           \<and> hdr_version hdr = FP_VERSION_CURRENT \<and> hdr_type hdr = FP_TYPE_JSON
           \<and> (hdr_status hdr = FP_STATUS_DATA \<or> hdr_status hdr = FP_STATUS_END
                \<or> hdr_status hdr = FP_STATUS_ERROR)
           \<and> hdr_msgid hdr \<le> FP_MSGID_MAX"
    and "dec_crc_mode s' = dec_crc_mode s" and "md_error s' = None" and "\<not> md_pushing s'"
  using assms
  by (auto simp: decode_iteration_def Let_def clear_header_def
           split: option.splits if_splits sum.splits decoded.splits)

lemma validated_frame_fully_validated:
  "validated_frame E crcMode m \<Longrightarrow> fully_validated m"
  unfolding validated_frame_def
  by (blast intro: fastMessageDecode_fully_validated)

lemma decode_loop_messages:
  "m \<in> set (fst (decode_loop E s)) \<Longrightarrow> validated_frame E (dec_crc_mode s) m"
proof (induction E s rule: decode_loop.induct)
  case (1 E s)
  show ?case
  proof (cases "FP_HEADER_SZ \<le> md_havebytes s")
    case False
    with "1.prems" show ?thesis by (simp add: decode_loop.simps [of E s])
  next
    case True
    show ?thesis
    proof (cases "decode_iteration E s")
      case (Break s')
      with True "1.prems" show ?thesis by (simp add: decode_loop.simps [of E s])
    next
      case (Throw e s')
      with True "1.prems" show ?thesis by (simp add: decode_loop.simps [of E s])
    next
      case (Push msg s')
      from Push True "1.prems"
      have "m = msg \<or> m \<in> set (fst (decode_loop E s'))"
        by (auto simp: decode_loop.simps [of E s] split: prod.splits)
      then show ?thesis
      proof
        assume "m = msg"
        with decode_iteration_Push(1) [OF Push] show ?thesis
          by (simp add: validated_frame_def)
      next
        assume "m \<in> set (fst (decode_loop E s'))"
        with "1.IH" [OF True Push] decode_iteration_Push(2) [OF Push]
        show ?thesis by simp
      qed
    qed
  qed
qed

lemma decode_messages:
  "m \<in> set (fst (decode E s)) \<Longrightarrow> validated_frame E (dec_crc_mode s) m"
  using decode_loop_messages [of m E s]
  by (auto simp: decode_def Let_def split: if_splits prod.splits option.splits)

lemma transform_messages:
  "m \<in> set (fst (transform E s chunk)) \<Longrightarrow> validated_frame E (dec_crc_mode s) m"
  by (auto simp: transform_def Let_def split: option.splits if_splits
           dest!: decode_messages)

lemma flush_messages:
  "m \<in> set (fst (flush E s)) \<Longrightarrow> validated_frame E (dec_crc_mode s) m"
  by (auto simp: flush_def dest!: decode_messages)

lemma decode_latched:
  "md_error s \<noteq> None \<Longrightarrow> fst (decode E s) = [] \<and> fst (snd (decode E s)) = s"
  by (simp add: decode_def)

lemma transform_latched:
  "md_error s \<noteq> None \<Longrightarrow>
     fst (transform E s chunk) = [] \<and> md_error (fst (snd (transform E s chunk))) = md_error s"
  by (auto simp: transform_def decode_def Let_def split: option.splits)

lemma flush_latched:
  "md_error s \<noteq> None \<Longrightarrow>
     fst (flush E s) = [] \<and> md_error (fst (snd (flush E s))) = md_error s"
  by (auto simp: flush_def decode_def)

lemma decode_loop_done:
  "md_done (fst (snd (decode_loop E s))) = md_done s"
proof (induction E s rule: decode_loop.induct)
  case (1 E s)
  show ?case
  proof (cases "FP_HEADER_SZ \<le> md_havebytes s")
    case False
    then show ?thesis by (simp add: decode_loop.simps [of E s])
  next
    case True
    show ?thesis
    proof (cases "decode_iteration E s")
      case (Break s')
      then have "md_done s' = md_done s"
        by (auto simp: decode_iteration_def Let_def clear_header_def
                 split: option.splits if_splits sum.splits decoded.splits)
      with True Break show ?thesis by (simp add: decode_loop.simps [of E s])
    next
      case (Throw e s')
      then have "md_done s' = md_done s"
        by (auto simp: decode_iteration_def Let_def clear_header_def
                 split: option.splits if_splits sum.splits decoded.splits)
      with True Throw show ?thesis by (simp add: decode_loop.simps [of E s])
    next
      case (Push msg s')
      then have "md_done s' = md_done s"
        by (auto simp: decode_iteration_def Let_def clear_header_def
                 split: option.splits if_splits sum.splits decoded.splits)
      with True Push "1.IH" [OF True Push] show ?thesis
        by (auto simp: decode_loop.simps [of E s] split: prod.splits)
    qed
  qed
qed

lemma flush_incomplete:
  assumes "md_error s = None" and "\<not> md_pushing s"
    and "decode_loop E (s\<lparr>md_done := True\<rparr>) = (msgs, s1, None)"
    and "md_error s1 = None" and "0 < md_havebytes s1"
  shows "flush E s = (msgs, s1\<lparr>md_error := Some incomplete_message\<rparr>,
                      Inr (Called (Some incomplete_message)))"
proof -
  have "md_done s1"
    using decode_loop_done [of E "s\<lparr>md_done := True\<rparr>"] assms(3) by simp
  with assms show ?thesis by (simp add: flush_def decode_def)
qed

lemma flush_consumed_or_failed:
  assumes "md_error s = None" and "\<not> md_pushing s"
    and "flush E s = (msgs, s', Inr (Called None))"
  shows "md_havebytes s' = 0"
proof -
  obtain ms s1 x where l: "decode_loop E (s\<lparr>md_done := True\<rparr>) = (ms, s1, x)"
    by (cases "decode_loop E (s\<lparr>md_done := True\<rparr>)") auto
  have d: "md_done s1"
    using decode_loop_done [of E "s\<lparr>md_done := True\<rparr>"] l by simp
  from assms l d show ?thesis
    by (auto simp: flush_def decode_def Let_def split: option.splits if_splits)
qed


lemma read_header_append:
  "FP_HEADER_SZ \<le> length f \<Longrightarrow> read_header (f @ tail) = read_header f"
  by (auto simp: read_header_def readUInt8_def readUInt32BE_def fp_offsets nth_append)

lemma decode_iteration_header:
  assumes "md_buffer s = Some buf" and "md_havebytes s = length buf"
    and "md_error s = None" and "md_version s = None"
  shows "hdr_version (read_header buf) \<noteq> FP_VERSION_CURRENT \<Longrightarrow>
      \<exists>s'. decode_iteration E s = Break s'
         \<and> md_error s' = Some (unsupported_version (hdr_version (read_header buf)))"
    and "hdr_version (read_header buf) = FP_VERSION_CURRENT \<Longrightarrow>
      hdr_type (read_header buf) \<noteq> FP_TYPE_JSON \<Longrightarrow>
      \<exists>s'. decode_iteration E s = Break s'
         \<and> md_error s' = Some (unsupported_type (hdr_type (read_header buf)))"
    and "hdr_version (read_header buf) = FP_VERSION_CURRENT \<Longrightarrow>
      hdr_type (read_header buf) = FP_TYPE_JSON \<Longrightarrow>
      hdr_status (read_header buf) \<noteq> FP_STATUS_DATA \<Longrightarrow>
      hdr_status (read_header buf) \<noteq> FP_STATUS_END \<Longrightarrow>
      hdr_status (read_header buf) \<noteq> FP_STATUS_ERROR \<Longrightarrow>
      \<exists>s'. decode_iteration E s = Break s'
         \<and> md_error s' = Some (unsupported_status (hdr_status (read_header buf)))"
    and "hdr_version (read_header buf) = FP_VERSION_CURRENT \<Longrightarrow>
      hdr_type (read_header buf) = FP_TYPE_JSON \<Longrightarrow>
      hdr_status (read_header buf) = FP_STATUS_DATA
        \<or> hdr_status (read_header buf) = FP_STATUS_END
        \<or> hdr_status (read_header buf) = FP_STATUS_ERROR \<Longrightarrow>
      FP_MSGID_MAX < hdr_msgid (read_header buf) \<Longrightarrow>
      \<exists>s'. decode_iteration E s = Break s'
         \<and> md_error s' = Some (invalid_msgid (hdr_msgid (read_header buf)))"
  using assms by (auto simp: decode_iteration_def read_header_def Let_def)

lemma decode_iteration_good_frame:
  assumes b: "md_buffer s = Some (f @ tail)" and h: "md_havebytes s = length (f @ tail)"
    and e: "md_error s = None" and v: "md_version s = None"
    and g: "good_frame E (dec_crc_mode s) f"
  shows "\<exists>m s'. frame_message E (dec_crc_mode s) f = Some m
           \<and> decode_iteration E s = Push m s'
           \<and> md_buffer s' = Some tail \<and> md_havebytes s' = length tail
           \<and> md_error s' = None \<and> md_version s' = None \<and> \<not> md_pushing s'
           \<and> dec_crc_mode s' = dec_crc_mode s"
proof -
  from g have l: "length f = FP_HEADER_SZ + hdr_datalen (read_header f)"
    by (simp add: good_frame_def)
  then have l15: "FP_HEADER_SZ \<le> length f" by simp
  note r = read_header_append [OF l15, of tail]
  from g obtain m where m: "fastMessageDecode E (read_header f) f (dec_crc_mode s)
                              = Inr (Message m)"
    by (auto simp: good_frame_def frame_message_def split: sum.splits decoded.splits)
  then have fm: "frame_message E (dec_crc_mode s) f = Some m"
    by (simp add: frame_message_def)
  have rd: "readUInt8 (f @ tail) FP_OFF_VERSION = hdr_version (read_header f)"
    "readUInt8 (f @ tail) FP_OFF_TYPE = hdr_type (read_header f)"
    "readUInt8 (f @ tail) FP_OFF_STATUS = hdr_status (read_header f)"
    "readUInt32BE (f @ tail) FP_OFF_MSGID = hdr_msgid (read_header f)"
    "readUInt32BE (f @ tail) FP_OFF_CRC = hdr_crc (read_header f)"
    "readUInt32BE (f @ tail) FP_OFF_DATALEN = hdr_datalen (read_header f)"
    using r by (simp_all add: read_header_def)
  from g have ok: "hdr_version (read_header f) = FP_VERSION_CURRENT"
    "hdr_type (read_header f) = FP_TYPE_JSON"
    "hdr_status (read_header f) = FP_STATUS_DATA
       \<or> hdr_status (read_header f) = FP_STATUS_END
       \<or> hdr_status (read_header f) = FP_STATUS_ERROR"
    "\<not> FP_MSGID_MAX < hdr_msgid (read_header f)"
    by (auto simp: good_frame_def)
  have hd: "\<lparr>hdr_version = FP_VERSION_CURRENT, hdr_type = FP_TYPE_JSON,
             hdr_status = hdr_status (read_header f), hdr_msgid = hdr_msgid (read_header f),
             hdr_crc = hdr_crc (read_header f), hdr_datalen = hdr_datalen (read_header f)\<rparr>
            = read_header f"
    using ok(1,2) by (cases "read_header f") simp
  have tk: "take (FP_HEADER_SZ + hdr_datalen (read_header f)) (f @ tail) = f"
    "drop (FP_HEADER_SZ + hdr_datalen (read_header f)) (f @ tail) = tail"
    using l by simp_all
  have "\<exists>s'. decode_iteration E s = Push m s'
           \<and> md_buffer s' = Some tail \<and> md_havebytes s' = length tail
           \<and> md_error s' = None \<and> md_version s' = None \<and> \<not> md_pushing s'
           \<and> dec_crc_mode s' = dec_crc_mode s"
    unfolding decode_iteration_def
    using ok(3,4) l
    by (simp add: b h e v rd ok(1,2) Let_def hd tk m clear_header_def)
  with fm show ?thesis by blast
qed

text \<open>
  The loop of \<^verbatim>\<open>decode\<close> on a buffer that starts with complete frames which the
  decoder accepts: it pushes their messages and goes on with the rest of the buffer.
\<close>

lemma decode_loop_frames:
  assumes "md_buffer s = Some (concat frames @ rest)"
    and "md_havebytes s = length (concat frames @ rest)"
    and "md_error s = None" and "md_version s = None"
    and "\<forall>f\<in>set frames. good_frame E (dec_crc_mode s) f"
  shows "\<exists>msgs s0. map Some msgs = map (frame_message E (dec_crc_mode s)) frames
           \<and> md_buffer s0 = Some rest \<and> md_havebytes s0 = length rest
           \<and> md_error s0 = None \<and> md_version s0 = None
           \<and> dec_crc_mode s0 = dec_crc_mode s
           \<and> decode_loop E s = (msgs @ fst (decode_loop E s0), snd (decode_loop E s0))"
  using assms
proof (induction frames arbitrary: s)
  case Nil
  then show ?case
    by (intro exI [of _ "[]"] exI [of _ s]) simp
next
  case (Cons f fs)
  from Cons.prems have g: "good_frame E (dec_crc_mode s) f" by simp
  from Cons.prems have b: "md_buffer s = Some (f @ (concat fs @ rest))"
    and h: "md_havebytes s = length (f @ (concat fs @ rest))"
    by simp_all
  from decode_iteration_good_frame [OF b h Cons.prems(3,4) g]
  obtain m s' where m: "frame_message E (dec_crc_mode s) f = Some m"
    and p: "decode_iteration E s = Push m s'"
    and s': "md_buffer s' = Some (concat fs @ rest)"
      "md_havebytes s' = length (concat fs @ rest)"
      "md_error s' = None" "md_version s' = None"
    and c: "dec_crc_mode s' = dec_crc_mode s"
    by blast
  from Cons.prems c have "\<forall>f\<in>set fs. good_frame E (dec_crc_mode s') f" by simp
  from Cons.IH [OF s' this] c obtain msgs s0 where
    i: "map Some msgs = map (frame_message E (dec_crc_mode s)) fs"
      "md_buffer s0 = Some rest" "md_havebytes s0 = length rest"
      "md_error s0 = None" "md_version s0 = None" "dec_crc_mode s0 = dec_crc_mode s"
      "decode_loop E s' = (msgs @ fst (decode_loop E s0), snd (decode_loop E s0))"
    by auto
  from g have "FP_HEADER_SZ \<le> length f" by (simp add: good_frame_def)
  with h have "FP_HEADER_SZ \<le> md_havebytes s" by simp
  with p i(7) have "decode_loop E s
      = ((m # msgs) @ fst (decode_loop E s0), snd (decode_loop E s0))"
    by (simp add: decode_loop.simps [of E s] split: prod.splits)
  with m i show ?case
    by (intro exI [of _ "m # msgs"] exI [of _ s0]) simp
qed

lemma decode_frames_error:
  assumes "md_buffer s = Some (concat frames @ rest)"
    and "md_havebytes s = length (concat frames @ rest)"
    and "md_error s = None" and "\<not> md_pushing s" and "md_version s = None"
    and "\<forall>f\<in>set frames. good_frame E (dec_crc_mode s) f"
    and "FP_HEADER_SZ \<le> length rest"
    and "\<And>s0. md_buffer s0 = Some rest \<Longrightarrow> md_havebytes s0 = length rest \<Longrightarrow>
           md_error s0 = None \<Longrightarrow> md_version s0 = None \<Longrightarrow>
           \<exists>s'. decode_iteration E s0 = Break s' \<and> md_error s' = Some err"
  shows "map Some (fst (decode E s)) = map (frame_message E (dec_crc_mode s)) frames
         \<and> md_error (fst (snd (decode E s))) = Some err
         \<and> snd (snd (decode E s)) = Inr (Called (Some err))"
proof -
  from decode_loop_frames [OF assms(1,2,3,5,6)] obtain msgs s0 where
    i: "map Some msgs = map (frame_message E (dec_crc_mode s)) frames"
      "md_buffer s0 = Some rest" "md_havebytes s0 = length rest"
      "md_error s0 = None" "md_version s0 = None"
      "decode_loop E s = (msgs @ fst (decode_loop E s0), snd (decode_loop E s0))"
    by blast
  from assms(8) [OF i(2,3,4,5)] obtain s' where
    b: "decode_iteration E s0 = Break s'" "md_error s' = Some err"
    by blast
  from i(3) assms(7) have "FP_HEADER_SZ \<le> md_havebytes s0" by simp
  with b have "decode_loop E s0 = ([], s', None)"
    by (simp add: decode_loop.simps [of E s0])
  with i(6) have "decode_loop E s = (msgs, s', None)" by simp
  with assms(3,4) b(2) i(1) show ?thesis
    by (simp add: decode_def)
qed

lemma length_uint32be [simp]: "length (uint32be v) = 4"
  by (simp add: uint32be_def)

lemma length_utf8_bytes [simp]: "length (utf8_bytes s) = length s"
  by (simp add: utf8_bytes_def)

lemma uint32_bytes:
  fixes n :: nat
  assumes "n < 2 ^ 32"
  shows "((n div 2 ^ 24 mod 256 * 256 + n div 2 ^ 16 mod 256) * 256 + n div 2 ^ 8 mod 256) * 256
           + n mod 256 = n"
proof -
  have b: "n div 2 ^ 24 = n div 2 ^ 16 div 256"
    by (simp add: div_mult2_eq [symmetric])
  have "n div 2 ^ 24 mod 256 = n div 2 ^ 24"
    using assms by (simp add: less_mult_imp_div_less)
  then have a: "n div 2 ^ 16 div 256 mod 256 = n div 2 ^ 16 div 256"
    by (simp only: b)
  have c: "n div 2 ^ 16 = n div 2 ^ 8 div 256"
    by (simp add: div_mult2_eq [symmetric])
  have "n div 2 ^ 24 mod 256 * 256 + n div 2 ^ 16 mod 256 = n div 2 ^ 16"
    using div_mult_mod_eq [of "n div 2 ^ 16" 256] by (simp only: b a)
  moreover have "n div 2 ^ 16 * 256 + n div 2 ^ 8 mod 256 = n div 2 ^ 8"
    using div_mult_mod_eq [of "n div 2 ^ 8" 256] by (simp only: c)
  moreover have "n div 2 ^ 8 * 256 + n mod 256 = n"
    using div_mult_mod_eq [of n 256] by simp
  ultimately show ?thesis by simp
qed

lemma readUInt32BE_uint32be:
  assumes "v < 2 ^ 32" and "length pre = off"
  shows "readUInt32BE (pre @ uint32be v @ post) off = v"
proof -
  have "readUInt32BE (pre @ uint32be v @ post) off
        = ((v div 2 ^ 24 mod 256 * 256 + v div 2 ^ 16 mod 256) * 256 + v div 2 ^ 8 mod 256) * 256
           + v mod 256"
    using assms(2) by (simp add: readUInt32BE_def uint32be_def nth_append unat_of_nat)
  then show ?thesis by (simp only: uint32_bytes [OF assms(1)])
qed

lemma findMatchingCrc_loop_encoded:
  "findMatchingCrc_loop E c i d enc0 = (d', Inr (crc, enc)) \<Longrightarrow> enc0 = JSON_stringify E d
     \<Longrightarrow> enc = JSON_stringify E d'"
proof (induction E c i d enc0 rule: findMatchingCrc_loop.induct)
  case (1 E c i d enc0)
  show ?case
  proof (cases "i < 500000")
    case False
    with "1.prems" show ?thesis
      by (auto simp: findMatchingCrc_loop.simps [of E c i d])
  next
    case True
    show ?thesis
    proof (cases "old_crc16 E enc0 = new_crc16 E enc0")
      case eq: True
      with True "1.prems" show ?thesis
        by (auto simp: findMatchingCrc_loop.simps [of E c i d])
    next
      case ne: False
      show ?thesis
      proof (cases "assign_m_uts d (JNum (microtime_now E i))")
        case (Inl e)
        with True ne "1.prems" show ?thesis
          by (simp add: findMatchingCrc_loop.simps [of E c i d])
      next
        case (Inr d1)
        with True ne "1.prems"
        have "findMatchingCrc_loop E c (i + 1) d1 (JSON_stringify E d1) = (d', Inr (crc, enc))"
          by (simp add: findMatchingCrc_loop.simps [of E c i d])
        with "1.IH" [OF True refl refl ne Inr] show ?thesis by simp
      qed
    qed
  qed
qed




lemma findMatchingCrc_loop_crc:
  "findMatchingCrc_loop E c i d enc0 = (d', Inr (crc, enc)) \<Longrightarrow>
     (old_crc16 E enc = new_crc16 E enc \<and> crc = old_crc16 E enc) \<or> crc = c"
proof (induction E c i d enc0 rule: findMatchingCrc_loop.induct)
  case (1 E c i d enc0)
  show ?case
  proof (cases "i < 500000")
    case False
    with "1.prems" show ?thesis
      by (auto simp: findMatchingCrc_loop.simps [of E c i d])
  next
    case True
    show ?thesis
    proof (cases "old_crc16 E enc0 = new_crc16 E enc0")
      case eq: True
      with True "1.prems" show ?thesis
        by (auto simp: findMatchingCrc_loop.simps [of E c i d])
    next
      case ne: False
      show ?thesis
      proof (cases "assign_m_uts d (JNum (microtime_now E i))")
        case (Inl e)
        with True ne "1.prems" show ?thesis
          by (simp add: findMatchingCrc_loop.simps [of E c i d])
      next
        case (Inr d1)
        with True ne "1.prems"
        have "findMatchingCrc_loop E c (i + 1) d1 (JSON_stringify E d1) = (d', Inr (crc, enc))"
          by (simp add: findMatchingCrc_loop.simps [of E c i d])
        with "1.IH" [OF True refl refl ne Inr] show ?thesis by simp
      qed
    qed
  qed
qed

text \<open>
  The CRC that \<^verbatim>\<open>findMatchingCrc\<close> returns is one on which both functions agree for
  the serialization returned, or else it is what \<^verbatim>\<open>mod_old_crc.crc16\<close> gave for the
  data object before the loop.
\<close>

lemma findMatchingCrc_crc:
  assumes "findMatchingCrc E d = (d', Inr (crc, enc))"
  shows "(old_crc16 E enc = new_crc16 E enc \<and> crc = old_crc16 E enc)
         \<or> old_crc16_object E d = Inr crc"
  using assms
  by (auto simp: findMatchingCrc_def split: sum.splits dest: findMatchingCrc_loop_crc)

lemma findMatchingCrc_encoded:
  assumes "findMatchingCrc E d = (d', Inr (crc, enc))"
  shows "enc = JSON_stringify E d'"
  using assms
  by (auto simp: findMatchingCrc_def split: sum.splits
           dest: findMatchingCrc_loop_encoded)

lemma num_eq [simp]: "(num a = num b) = (a = b)"
  by (simp add: num_def)

lemma fastMessageEncode_rejects:
  assumes "\<not> (msgid_ok (msgid msg) \<and> is_object (data msg) \<and> is_number (status msg)
              \<and> is_optional_number (crc_mode msg) \<and> default_crc_mode_ok dflt
              \<and> status_ok (status msg))"
  shows "fst (fastMessageEncode E msg dflt) = msg \<and> isl (snd (fastMessageEncode E msg dflt))"
  using assms
  by (auto simp: fastMessageEncode_def default_crc_mode_ok_def status_ok_def)

lemma fastMessageEncode_accepts:
  assumes "msgid_ok (msgid msg)" and "is_object (data msg)" and "is_number (status msg)"
    and "is_optional_number (crc_mode msg)" and "default_crc_mode_ok dflt"
    and "status_ok (status msg)"
  shows "\<exists>mid st d. msgid msg = Some (JNum mid) \<and> status msg = Some (JNum st)
           \<and> data msg = Some d
           \<and> fastMessageEncode E msg dflt = encode_checked E msg dflt mid st d"
proof -
  from assms(1) obtain mid where m: "msgid msg = Some (JNum mid)"
    by (cases "msgid msg" rule: msgid_ok.cases) auto
  from assms(3) obtain st where s: "status msg = Some (JNum st)"
    by (cases "status msg" rule: is_number.cases) auto
  from assms(2) obtain d where d: "data msg = Some d"
    by (cases "data msg") auto
  have c: "\<not> (truthy dflt \<and> dflt \<noteq> num FAST_CHECKSUM_V1 \<and> dflt \<noteq> num FAST_CHECKSUM_V2
              \<and> dflt \<noteq> num FAST_CHECKSUM_V1_V2)"
    using assms(5) by (auto simp: default_crc_mode_ok_def)
  have t: "\<not> (status msg \<noteq> num FP_STATUS_DATA \<and> status msg \<noteq> num FP_STATUS_END
              \<and> status msg \<noteq> num FP_STATUS_ERROR)"
    using assms(6) by (auto simp: status_ok_def)
  have "fastMessageEncode E msg dflt = encode_checked E msg dflt mid st d"
    unfolding fastMessageEncode_def effective_crc_mode_def encode_checked_def
    using assms(1,2,3,4) c t
    apply (simp only: m s d if_False if_True not_not simp_thms prod.case option.case
             jsval.case)
    apply (simp only: Let_def)
    done
  with m s d show ?thesis by blast
qed

lemma fastMessageEncode_Inr:
  assumes "snd (fastMessageEncode E msg dflt) = Inr buf"
  shows "\<exists>mid st d d' crc16 enc.
           msgid msg = Some (JNum mid) \<and> status msg = Some (JNum st) \<and> data msg = Some d
           \<and> (if effective_crc_mode msg dflt = num FAST_CHECKSUM_V2
               then d' = d \<and> crc16 = new_crc16 E (JSON_stringify E d)
                    \<and> enc = JSON_stringify E d
               else (effective_crc_mode msg dflt = num FAST_CHECKSUM_V1
                     \<or> effective_crc_mode msg dflt = num FAST_CHECKSUM_V1_V2)
                    \<and> findMatchingCrc E d = (d', Inr (crc16, enc)))
           \<and> fst (fastMessageEncode E msg dflt) = msg\<lparr>data := Some d'\<rparr>
           \<and> crc16 < 2 ^ 32 \<and> length enc < 2 ^ 32
           \<and> buf = [of_nat FP_VERSION_CURRENT, of_nat FP_TYPE_JSON, of_nat (nat st)]
                   @ uint32be (nat mid) @ uint32be crc16 @ uint32be (length enc)
                   @ utf8_bytes enc"
proof -
  have ok: "msgid_ok (msgid msg) \<and> is_object (data msg) \<and> is_number (status msg)
              \<and> is_optional_number (crc_mode msg) \<and> default_crc_mode_ok dflt
              \<and> status_ok (status msg)"
    using fastMessageEncode_rejects [of msg dflt E] assms by auto
  then obtain mid st d where
    f: "msgid msg = Some (JNum mid)" "status msg = Some (JNum st)" "data msg = Some d"
    and u: "fastMessageEncode E msg dflt = encode_checked E msg dflt mid st d"
    using fastMessageEncode_accepts [of msg dflt E] by blast
  show ?thesis
  proof (cases "effective_crc_mode msg dflt = num FAST_CHECKSUM_V2")
    case True
    with assms f show ?thesis
      unfolding u encode_checked_def by (auto simp: Let_def fp_consts split: if_splits)
  next
    case False
    show ?thesis
    proof (cases "findMatchingCrc E d")
      case (Pair d' r)
      show ?thesis
      proof (cases r)
        case (Inl e)
        with assms f False Pair show ?thesis
          unfolding u encode_checked_def by (auto simp: Let_def split: if_splits)
      next
        case (Inr res)
        with assms f False Pair show ?thesis
          unfolding u encode_checked_def
          by (cases res) (auto simp: Let_def split: if_splits)
      qed
    qed
  qed
qed

lemma fastMessageEncode_V2_unchanged:
  assumes "effective_crc_mode msg dflt = num FAST_CHECKSUM_V2"
  shows "fst (fastMessageEncode E msg dflt) = msg"
proof (cases "msgid_ok (msgid msg) \<and> is_object (data msg) \<and> is_number (status msg)
              \<and> is_optional_number (crc_mode msg) \<and> default_crc_mode_ok dflt
              \<and> status_ok (status msg)")
  case False
  then show ?thesis by (rule fastMessageEncode_rejects [THEN conjunct1])
next
  case True
  then obtain mid st d where "data msg = Some d"
    and "fastMessageEncode E msg dflt = encode_checked E msg dflt mid st d"
    using fastMessageEncode_accepts [of msg dflt E] by blast
  with assms show ?thesis
    by (cases msg) (auto simp: encode_checked_def Let_def fp_consts)
qed

lemma fastMessageEncode_header:
  assumes "snd (fastMessageEncode E msg dflt) = Inr buf"
  shows "\<exists>mid st d d' crc16.
           msgid msg = num mid \<and> mid \<le> FP_MSGID_MAX \<and> status msg = num st
           \<and> (st = FP_STATUS_DATA \<or> st = FP_STATUS_END \<or> st = FP_STATUS_ERROR)
           \<and> data msg = Some d
           \<and> fst (fastMessageEncode E msg dflt) = msg\<lparr>data := Some d'\<rparr>
           \<and> (if effective_crc_mode msg dflt = num FAST_CHECKSUM_V2
               then d' = d \<and> crc16 = new_crc16 E (JSON_stringify E d)
               else findMatchingCrc E d = (d', Inr (crc16, JSON_stringify E d')))
           \<and> read_header buf =
               \<lparr>hdr_version = FP_VERSION_CURRENT, hdr_type = FP_TYPE_JSON, hdr_status = st,
                hdr_msgid = mid, hdr_crc = crc16,
                hdr_datalen = length (utf8_bytes (JSON_stringify E d'))\<rparr>
           \<and> length buf = FP_OFF_DATA + length (utf8_bytes (JSON_stringify E d'))
           \<and> drop FP_OFF_DATA buf = utf8_bytes (JSON_stringify E d')"
proof -
  have ok: "msgid_ok (msgid msg)" "status_ok (status msg)"
    using fastMessageEncode_rejects [of msg dflt E] assms by auto
  from fastMessageEncode_Inr [OF assms] obtain mid st d d' crc16 enc where
    i: "msgid msg = Some (JNum mid)" and s: "status msg = Some (JNum st)"
    and d: "data msg = Some d"
    and m: "if effective_crc_mode msg dflt = num FAST_CHECKSUM_V2
            then d' = d \<and> crc16 = new_crc16 E (JSON_stringify E d)
                 \<and> enc = JSON_stringify E d
            else (effective_crc_mode msg dflt = num FAST_CHECKSUM_V1
                  \<or> effective_crc_mode msg dflt = num FAST_CHECKSUM_V1_V2)
                 \<and> findMatchingCrc E d = (d', Inr (crc16, enc))"
    and f: "fst (fastMessageEncode E msg dflt) = msg\<lparr>data := Some d'\<rparr>"
    and c: "crc16 < 2 ^ 32" and l: "length enc < 2 ^ 32"
    and b: "buf = [of_nat FP_VERSION_CURRENT, of_nat FP_TYPE_JSON, of_nat (nat st)]
                   @ uint32be (nat mid) @ uint32be crc16 @ uint32be (length enc)
                   @ utf8_bytes enc"
    by blast
  have e: "enc = JSON_stringify E d'"
    using m by (auto split: if_splits dest: findMatchingCrc_encoded)
  have mid: "0 \<le> mid" "nat mid \<le> FP_MSGID_MAX"
    using ok(1) i by (auto simp: FP_MSGID_MAX_def)
  then have mid32: "nat mid < 2 ^ 32"
    by (simp add: FP_MSGID_MAX_def)
  have st: "nat st = FP_STATUS_DATA \<or> nat st = FP_STATUS_END \<or> nat st = FP_STATUS_ERROR"
    "0 \<le> st"
    using ok(2) s by (auto simp: status_ok_def num_def)
  have r0: "readUInt8 buf FP_OFF_VERSION = FP_VERSION_CURRENT"
    "readUInt8 buf FP_OFF_TYPE = FP_TYPE_JSON"
    using b by (simp_all add: readUInt8_def fp_offsets fp_consts)
  have r2: "readUInt8 buf FP_OFF_STATUS = nat st"
    using b st(1) by (auto simp: readUInt8_def fp_offsets fp_consts)
  have r3: "readUInt32BE buf FP_OFF_MSGID = nat mid"
    using readUInt32BE_uint32be [OF mid32, of
        "[of_nat FP_VERSION_CURRENT, of_nat FP_TYPE_JSON, of_nat (nat st)]" FP_OFF_MSGID
        "uint32be crc16 @ uint32be (length enc) @ utf8_bytes enc"] b
    by (simp add: fp_offsets)
  have "buf = ([of_nat FP_VERSION_CURRENT, of_nat FP_TYPE_JSON, of_nat (nat st)]
                @ uint32be (nat mid)) @ uint32be crc16
              @ uint32be (length enc) @ utf8_bytes enc"
    using b by simp
  then have r7: "readUInt32BE buf FP_OFF_CRC = crc16"
    using readUInt32BE_uint32be [OF c, of
        "[of_nat FP_VERSION_CURRENT, of_nat FP_TYPE_JSON, of_nat (nat st)]
           @ uint32be (nat mid)" FP_OFF_CRC "uint32be (length enc) @ utf8_bytes enc"]
    by (simp add: fp_offsets)
  have "buf = ([of_nat FP_VERSION_CURRENT, of_nat FP_TYPE_JSON, of_nat (nat st)]
                @ uint32be (nat mid) @ uint32be crc16)
              @ uint32be (length enc) @ utf8_bytes enc"
    using b by simp
  then have r11: "readUInt32BE buf FP_OFF_DATALEN = length enc"
    using readUInt32BE_uint32be [OF l, of
        "[of_nat FP_VERSION_CURRENT, of_nat FP_TYPE_JSON, of_nat (nat st)]
           @ uint32be (nat mid) @ uint32be crc16" FP_OFF_DATALEN "utf8_bytes enc"]
    by (simp add: fp_offsets)
  have h: "read_header buf =
             \<lparr>hdr_version = FP_VERSION_CURRENT, hdr_type = FP_TYPE_JSON, hdr_status = nat st,
              hdr_msgid = nat mid, hdr_crc = crc16,
              hdr_datalen = length (utf8_bytes (JSON_stringify E d'))\<rparr>"
    by (simp add: read_header_def r0 r2 r3 r7 r11 e)
  have n: "msgid msg = num (nat mid)" "status msg = num (nat st)"
    using i s mid(1) st(2) by (simp_all add: num_def)
  have len: "length buf = FP_OFF_DATA + length (utf8_bytes (JSON_stringify E d'))"
    using b e by (simp add: fp_offsets)
  have dr: "drop FP_OFF_DATA buf = utf8_bytes (JSON_stringify E d')"
    using b e by (simp add: fp_offsets)
  have m': "if effective_crc_mode msg dflt = num FAST_CHECKSUM_V2
            then d' = d \<and> crc16 = new_crc16 E (JSON_stringify E d)
            else findMatchingCrc E d = (d', Inr (crc16, JSON_stringify E d'))"
    using m e by (auto split: if_splits)
  from n mid(2) st(1) d f m' h len dr show ?thesis
    by blast
qed

text \<open>
  Decoding what was encoded: when the encoder returns a buffer, the runtime reads back
  the bytes that it wrote and parses what it serialized, the data has the shape that
  the decoder asks of it, and the CRC written passes \<^verbatim>\<open>validateCrc\<close>, the decoder
  returns the message as the encoder left it, with the CRC mode that \<^verbatim>\<open>validateCrc\<close>
  reports. Under mode V2 the CRC written always passes.
\<close>

lemma decode_encoded:
  assumes enc: "fastMessageEncode E msg dflt = (msg', Inr buf)"
    and d': "data msg' = Some d'"
    and str: "utf8_toString E (utf8_bytes (JSON_stringify E d')) = JSON_stringify E d'"
    and parse: "JSON_parse E (JSON_stringify E d') = Some d'"
    and shape: "fully_validated msg'"
    and crc: "validateCrc E (js_or crcMode (num FAST_CHECKSUM_V1))
                (hdr_crc (read_header buf)) (JSON_stringify E d')
              = Inr \<lparr>decodedCrcMode = c, error = None\<rparr>"
  shows "fastMessageDecode E (read_header buf) buf crcMode
         = Inr (Message (msg'\<lparr>crc_mode := (case c of None \<Rightarrow> None | Some m \<Rightarrow> num m)\<rparr>))"
proof -
  from enc have s: "snd (fastMessageEncode E msg dflt) = Inr buf"
    and f: "fst (fastMessageEncode E msg dflt) = msg'"
    by simp_all
  from fastMessageEncode_header [OF s] f d' obtain mid st crc16 where
    i: "msgid msg = num mid" and t: "status msg = num st"
    and m: "msg' = msg\<lparr>data := Some d'\<rparr>"
    and h: "read_header buf =
               \<lparr>hdr_version = FP_VERSION_CURRENT, hdr_type = FP_TYPE_JSON, hdr_status = st,
                hdr_msgid = mid, hdr_crc = crc16,
                hdr_datalen = length (utf8_bytes (JSON_stringify E d'))\<rparr>"
    and len: "length buf = FP_OFF_DATA + length (utf8_bytes (JSON_stringify E d'))"
    and dr: "drop FP_OFF_DATA buf = utf8_bytes (JSON_stringify E d')"
    by auto
  have sh: "is_object (Some d')"
    "st = FP_STATUS_DATA \<or> st = FP_STATUS_END \<Longrightarrow> is_array (get_prop (Some d') ''d'')"
    "st = FP_STATUS_ERROR \<Longrightarrow> is_object (get_prop (Some d') ''d'')
       \<and> is_string (get_prop (get_prop (Some d') ''d'') ''name'')
       \<and> is_string (get_prop (get_prop (Some d') ''d'') ''message'')"
    using shape t unfolding fully_validated_def m
    by (auto simp: fp_consts split: if_splits)
  have "msg'\<lparr>crc_mode := (case c of None \<Rightarrow> None | Some m \<Rightarrow> num m)\<rparr>
        = \<lparr>msgid = num mid, status = num st, data = Some d',
           crc_mode = (case c of None \<Rightarrow> None | Some m \<Rightarrow> num m)\<rparr>"
    using i t unfolding m by (cases msg) simp
  then show ?thesis
    using crc sh len
    unfolding fastMessageDecode_def h
    by (auto simp: Let_def dr str parse)
qed

lemma decode_encoded_V2:
  assumes enc: "fastMessageEncode E msg dflt = (msg', Inr buf)"
    and mode: "effective_crc_mode msg dflt = num FAST_CHECKSUM_V2"
    and d: "data msg = Some d"
    and str: "utf8_toString E (utf8_bytes (JSON_stringify E d)) = JSON_stringify E d"
    and parse: "JSON_parse E (JSON_stringify E d) = Some d"
    and shape: "fully_validated msg"
  shows "fastMessageDecode E (read_header buf) buf (num FAST_CHECKSUM_V2)
         = Inr (Message (msg\<lparr>crc_mode := num FAST_CHECKSUM_V2\<rparr>))"
proof -
  from enc have s: "snd (fastMessageEncode E msg dflt) = Inr buf"
    and f: "fst (fastMessageEncode E msg dflt) = msg'"
    by simp_all
  have u: "msg' = msg"
    using fastMessageEncode_V2_unchanged [OF mode, of E] f by simp
  from fastMessageEncode_header [OF s] mode d have
    "hdr_crc (read_header buf) = new_crc16 E (JSON_stringify E d)"
    by auto
  then have "validateCrc E (js_or (num FAST_CHECKSUM_V2) (num FAST_CHECKSUM_V1))
                (hdr_crc (read_header buf)) (JSON_stringify E d)
              = Inr \<lparr>decodedCrcMode = Some FAST_CHECKSUM_V2, error = None\<rparr>"
    by (simp add: validateCrc_def Let_def js_or_def num_def FAST_CHECKSUM_V1_def
          FAST_CHECKSUM_V2_def FAST_CHECKSUM_V1_V2_def)
  from decode_encoded [OF enc [unfolded u] d str parse shape this] show ?thesis
    by simp
qed

text \<open>
  Under the other two modes the encoder has searched for a payload on which the two
  CRC16 functions agree. When the CRC that it wrote is the old CRC16 of the payload, a
  decoder in mode V1 returns the message as the encoder left it.
\<close>

lemma decode_encoded_V1:
  assumes enc: "fastMessageEncode E msg dflt = (msg', Inr buf)"
    and d': "data msg' = Some d'"
    and crc: "hdr_crc (read_header buf) = old_crc16 E (JSON_stringify E d')"
    and str: "utf8_toString E (utf8_bytes (JSON_stringify E d')) = JSON_stringify E d'"
    and parse: "JSON_parse E (JSON_stringify E d') = Some d'"
    and shape: "fully_validated msg'"
  shows "fastMessageDecode E (read_header buf) buf (num FAST_CHECKSUM_V1)
         = Inr (Message (msg'\<lparr>crc_mode := None\<rparr>))"
proof -
  have "validateCrc E (js_or (num FAST_CHECKSUM_V1) (num FAST_CHECKSUM_V1))
          (hdr_crc (read_header buf)) (JSON_stringify E d')
        = Inr \<lparr>decodedCrcMode = None, error = None\<rparr>"
    by (simp add: validateCrc_def Let_def crc js_or_def num_def FAST_CHECKSUM_V1_def
          FAST_CHECKSUM_V2_def FAST_CHECKSUM_V1_V2_def)
  from decode_encoded [OF enc d' str parse shape this] show ?thesis
    by simp
qed

lemma reference_ext_simps [simp]:
  "old_crc16 reference_ext = crc16_v1"
  "old_crc16_object reference_ext = (\<lambda>d. Inr 0)"
  "new_crc16 reference_ext = crc16_v2"
  "microtime_now reference_ext = (\<lambda>i. 1600000000039367 + int i)"
  "JSON_stringify reference_ext = stringify"
  "JSON_parse reference_ext = parse_examples"
  "utf8_toString reference_ext = map (\<lambda>b. char_of (unat b))"
  "kMaxLength reference_ext = 2 ^ 30 - 1"
  by (simp_all add: reference_ext_def)

lemma decimal_example: "decimal 1600000000039367 = ''1600000000039367''"
  by (simp add: decimal.simps digit_char_def)

lemma stringify_example_data: "stringify example_data = example_payload"
  by (simp add: example_data_def example_payload_def quote_def quote_char_def
        number_string_def decimal_example)

lemma stringify_examples:
  "stringify (JObj [(''d'', JArr [])]) = ''{\"d\":[]}''"
  "stringify (JArr [JStr ''hello'', JStr ''world'']) = ''[\"hello\",\"world\"]''"
  "stringify (JObj [(''m'', JObj [(''uts'', JNum 0)]), (''d'', JArr [])])
     = ''{\"m\":{\"uts\":0},\"d\":[]}''"
  by (simp_all add: quote_def quote_char_def number_string_def
        decimal.simps [of 0] digit_char_def)

lemma crc16_example_payload:
  "crc16_v1 example_payload = 62680" "crc16_v2 example_payload = 62680"
  by (simp_all add: example_payload_def crc16_v1_def crc16_v1_add_def xmodem_shift_def
        crc16_v2_def crc16_v2_add_def arc_shift_def)

lemma crc16_examples:
  "crc16_v1 ''{\"d\":[]}'' = 16540"
  "crc16_v2 ''{\"d\":[]}'' = 3121"
  "crc16_v1 ''{\"m\":{\"uts\":0},\"d\":[]}'' = 10005"
  "crc16_v2 ''{\"m\":{\"uts\":0},\"d\":[]}'' = 9644"
  by (simp_all add: crc16_v1_def crc16_v1_add_def xmodem_shift_def
        crc16_v2_def crc16_v2_add_def arc_shift_def)

lemma char_of_unat_of_char [simp]: "char_of (unat (of_char c :: byte)) = c"
proof -
  have "unat (of_char c :: byte) = of_char c"
    by (simp add: of_nat_of_char [symmetric, where ?'a = byte] unat_of_nat
          del: of_nat_of_char)
  then show ?thesis by simp
qed

lemma toString_utf8_bytes [simp]:
  "map (\<lambda>b. char_of (unat b)) (utf8_bytes s) = s"
  by (simp add: utf8_bytes_def comp_def)

lemma length_example_payload [simp]: "length example_payload = 37"
  by (simp add: example_payload_def)

lemma findMatchingCrc_example:
  "findMatchingCrc reference_ext example_data
     = (example_data, Inr (62680, example_payload))"
  by (simp add: findMatchingCrc_def findMatchingCrc_loop.simps [of _ _ 0]
        stringify_example_data crc16_example_payload)

lemma uint32be_examples:
  "uint32be 7 = [0, 0, 0, 7]" "uint32be 62680 = [0, 0, 244, 216]"
  "uint32be 37 = [0, 0, 0, 37]"
  by (simp_all add: uint32be_def)

lemma is_object_example_data [simp]: "is_object (Some example_data)"
  by (simp add: example_data_def)

lemma encode_example_V1_V2:
  "fastMessageEncode reference_ext example_message (num FAST_CHECKSUM_V1_V2)
     = (example_message, Inr example_frame)"
  by (simp add: fastMessageEncode_def example_message_def num_def fp_consts fp_offsets
        js_or_def is_optional_number_def findMatchingCrc_example uint32be_examples
        example_frame_def FP_MSGID_MAX_def)






lemma effective_crc_mode_examples:
  "effective_crc_mode example_message (num FAST_CHECKSUM_V1_V2) = num FAST_CHECKSUM_V1_V2"
  "effective_crc_mode (example_message\<lparr>crc_mode := num FAST_CHECKSUM_V1_V2\<rparr>) None
     = num FAST_CHECKSUM_V1_V2"
  "effective_crc_mode example_message None = num FAST_CHECKSUM_V1"
  by (simp_all add: effective_crc_mode_def example_message_def js_or_def num_def fp_consts)

lemma example_message_simps [simp]:
  "msgid example_message = num 7" "status example_message = num FP_STATUS_DATA"
  "data example_message = Some example_data" "crc_mode example_message = None"
  by (simp_all add: example_message_def)

lemma encode_example_per_message_V1_V2:
  "fastMessageEncode reference_ext (example_message\<lparr>crc_mode := num FAST_CHECKSUM_V1_V2\<rparr>)
     None
     = (example_message\<lparr>crc_mode := num FAST_CHECKSUM_V1_V2\<rparr>, Inr example_frame)"
  by (simp add: fastMessageEncode_def example_message_def num_def fp_consts fp_offsets
        js_or_def is_optional_number_def findMatchingCrc_example uint32be_examples
        example_frame_def FP_MSGID_MAX_def)

lemma crc16_reference_vectors_aux:
  "crc16_v1 ''[\"hello\",\"world\"]'' = 10980"
  "crc16_v2 ''[\"hello\",\"world\"]'' = 7500"
  by (simp_all add: crc16_v1_def crc16_v1_add_def xmodem_shift_def
        crc16_v2_def crc16_v2_add_def arc_shift_def)


lemma is_object_example_data_0 [simp]: "is_object (Some example_data_0)"
  by (simp add: example_data_0_def)




lemma parse_example_payload: "parse_examples example_payload = Some example_data"
  by (simp add: parse_examples_def example_payload_def example_data_def)

lemma length_example_frame [simp]: "length example_frame = 52"
  by (simp add: example_frame_def)

lemma read_header_example_frame:
  "read_header (example_frame @ rest)
     = \<lparr>hdr_version = 1, hdr_type = 1, hdr_status = 1, hdr_msgid = 7, hdr_crc = 62680,
        hdr_datalen = 37\<rparr>"
  by (simp add: read_header_def example_frame_def readUInt8_def readUInt32BE_def
        fp_offsets nth_append)

lemma drop_example_frame [simp]:
  "drop 15 example_frame = utf8_bytes example_payload"
  by (simp add: example_frame_def)

lemmas fp_header_consts =
  FP_STATUS_DATA_def FP_STATUS_END_def FP_STATUS_ERROR_def FP_TYPE_JSON_def
  FP_VERSION_1_def FP_VERSION_CURRENT_def

lemma js_or_num [simp]:
  "js_or (num FAST_CHECKSUM_V1_V2) b = num FAST_CHECKSUM_V1_V2"
  "js_or (num FAST_CHECKSUM_V2) b = num FAST_CHECKSUM_V2"
  "js_or None b = b"
  by (simp_all add: js_or_def num_def fp_consts)

lemma get_prop_example_data [simp]:
  "get_prop (Some example_data) ''d'' = Some (JArr [])"
  by (simp add: example_data_def)

lemma validateCrc_example:
  "validateCrc reference_ext (num FAST_CHECKSUM_V1_V2) 62680 example_payload
     = Inr \<lparr>decodedCrcMode = Some FAST_CHECKSUM_V1_V2, error = None\<rparr>"
  by (simp add: validateCrc_def crc16_example_payload fp_consts)

lemma fastMessageDecode_example:
  "fastMessageDecode reference_ext
     \<lparr>hdr_version = 1, hdr_type = 1, hdr_status = 1, hdr_msgid = 7, hdr_crc = 62680,
      hdr_datalen = 37\<rparr> example_frame (num FAST_CHECKSUM_V1_V2)
     = Inr (Message (example_message\<lparr>crc_mode := num FAST_CHECKSUM_V1_V2\<rparr>))"
  by (simp add: fastMessageDecode_def validateCrc_example parse_example_payload
        example_message_def fp_offsets fp_header_consts Let_def)

lemma reads_example_frame:
  "readUInt8 (example_frame @ rest) FP_OFF_VERSION = 1"
  "readUInt8 (example_frame @ rest) FP_OFF_TYPE = 1"
  "readUInt8 (example_frame @ rest) FP_OFF_STATUS = 1"
  "readUInt32BE (example_frame @ rest) FP_OFF_MSGID = 7"
  "readUInt32BE (example_frame @ rest) FP_OFF_CRC = 62680"
  "readUInt32BE (example_frame @ rest) FP_OFF_DATALEN = 37"
  by (simp_all add: example_frame_def readUInt8_def readUInt32BE_def fp_offsets nth_append)

lemma FP_HEADER_SZ_15: "FP_HEADER_SZ = 15" "FP_OFF_DATA = 15"
  by (simp_all add: fp_offsets)

lemma decode_iteration_example:
  "decode_iteration reference_ext
     ((FastMessageDecoder (num FAST_CHECKSUM_V1_V2))
        \<lparr>md_havebytes := 54, md_buffer := Some example_chunk, md_nbytes := 54\<rparr>)
   = Push (example_message\<lparr>crc_mode := num FAST_CHECKSUM_V1_V2\<rparr>) example_decoder"
  by (simp add: decode_iteration_def FastMessageDecoder_def example_chunk_def
        reads_example_frame FP_HEADER_SZ_15 fp_header_consts FP_MSGID_MAX_def
        fastMessageDecode_example [simplified] clear_header_def example_decoder_def Let_def)

lemma transform_example:
  "transform reference_ext (FastMessageDecoder (num FAST_CHECKSUM_V1_V2)) example_chunk
   = ([example_message\<lparr>crc_mode := num FAST_CHECKSUM_V1_V2\<rparr>], example_decoder,
      Inr (Called None))"
proof -
  have l: "length example_chunk = 54"
    by (simp add: example_chunk_def)
  have "decode_loop reference_ext example_decoder = ([], example_decoder, None)"
    by (subst decode_loop.simps) (simp add: example_decoder_def FP_HEADER_SZ_15)
  then have "decode_loop reference_ext
     ((FastMessageDecoder (num FAST_CHECKSUM_V1_V2))
        \<lparr>md_havebytes := 54, md_buffer := Some example_chunk, md_nbytes := 54\<rparr>)
     = ([example_message\<lparr>crc_mode := num FAST_CHECKSUM_V1_V2\<rparr>], example_decoder, None)"
    by (subst decode_loop.simps) (simp add: decode_iteration_example FP_HEADER_SZ_15)
  then show ?thesis
    by (simp add: transform_def decode_def l Let_def FastMessageDecoder_def
          example_decoder_def)
qed

lemma flush_example:
  "flush reference_ext example_decoder
   = ([], example_decoder\<lparr>md_done := True, md_error := Some incomplete_message\<rparr>,
      Inr (Called (Some incomplete_message)))"
proof -
  have "decode_loop reference_ext (example_decoder\<lparr>md_done := True\<rparr>)
          = ([], example_decoder\<lparr>md_done := True\<rparr>, None)"
    by (subst decode_loop.simps) (simp add: example_decoder_def FP_HEADER_SZ_15)
  then show ?thesis
    by (simp add: flush_def decode_def)
       (simp add: FastMessageDecoder_def example_decoder_def)
qed

lemma validateCrc_V1_V2_cases:
  "(old_crc16 E payload = headerCrc \<and> new_crc16 E payload = headerCrc \<longrightarrow>
      validateCrc E (num FAST_CHECKSUM_V1_V2) headerCrc payload =
        Inr \<lparr>decodedCrcMode = Some FAST_CHECKSUM_V1_V2, error = None\<rparr>)
   \<and> (old_crc16 E payload = headerCrc \<and> new_crc16 E payload \<noteq> headerCrc \<longrightarrow>
      validateCrc E (num FAST_CHECKSUM_V1_V2) headerCrc payload =
        Inr \<lparr>decodedCrcMode = Some FAST_CHECKSUM_V1, error = None\<rparr>)
   \<and> (old_crc16 E payload \<noteq> headerCrc \<and> new_crc16 E payload = headerCrc \<longrightarrow>
      validateCrc E (num FAST_CHECKSUM_V1_V2) headerCrc payload =
        Inr \<lparr>decodedCrcMode = Some FAST_CHECKSUM_V2, error = None\<rparr>)
   \<and> (old_crc16 E payload \<noteq> headerCrc \<and> new_crc16 E payload \<noteq> headerCrc \<longrightarrow>
      validateCrc E (num FAST_CHECKSUM_V1_V2) headerCrc payload =
        Inr \<lparr>decodedCrcMode = None,
             error = Some (bad_crc headerCrc None (Some (old_crc16 E payload))
                             (Some (new_crc16 E payload)))\<rparr>)"
  by (simp add: validateCrc_def crcValidationError_def num_def fp_consts Let_def)

lemma fastMessageDecode_V1_V2:
  assumes "length buffer = FP_OFF_DATA + hdr_datalen hdr"
    and "payload = utf8_toString E (drop FP_OFF_DATA buffer)" and "headerCrc = hdr_crc hdr"
  shows "(old_crc16 E payload \<noteq> headerCrc \<and> new_crc16 E payload \<noteq> headerCrc \<longrightarrow>
           fastMessageDecode E hdr buffer (num FAST_CHECKSUM_V1_V2) =
             Inr (Error (bad_crc headerCrc None (Some (old_crc16 E payload))
                           (Some (new_crc16 E payload)))))
        \<and> (\<forall>m. fastMessageDecode E hdr buffer (num FAST_CHECKSUM_V1_V2) = Inr (Message m) \<longrightarrow>
              (old_crc16 E payload = headerCrc \<or> new_crc16 E payload = headerCrc)
              \<and> crc_mode m =
                  num (if old_crc16 E payload = headerCrc \<and> new_crc16 E payload = headerCrc
                       then FAST_CHECKSUM_V1_V2
                       else if new_crc16 E payload = headerCrc then FAST_CHECKSUM_V2
                       else FAST_CHECKSUM_V1))"
  using assms validateCrc_V1_V2_cases [of E payload headerCrc]
  by (cases "old_crc16 E payload = headerCrc"; cases "new_crc16 E payload = headerCrc")
     (auto simp: fastMessageDecode_def Let_def split: option.splits if_splits)

lemma holding_simps [simp]:
  "md_buffer (holding b) = Some b" "md_havebytes (holding b) = length b"
  "md_error (holding b) = None" "\<not> md_pushing (holding b)" "md_version (holding b) = None"
  by (simp_all add: holding_def FastMessageDecoder_def)

lemma crc_modes_distinct [simp]:
  "FAST_CHECKSUM_V1 \<noteq> FAST_CHECKSUM_V2" "FAST_CHECKSUM_V2 \<noteq> FAST_CHECKSUM_V1"
  "FAST_CHECKSUM_V1 \<noteq> FAST_CHECKSUM_V1_V2" "FAST_CHECKSUM_V1_V2 \<noteq> FAST_CHECKSUM_V1"
  "FAST_CHECKSUM_V2 \<noteq> FAST_CHECKSUM_V1_V2" "FAST_CHECKSUM_V1_V2 \<noteq> FAST_CHECKSUM_V2"
  by (simp_all add: fp_consts)




lemma length_example_payload_5 [simp]: "length example_payload_5 = 14"
  by (simp add: example_payload_5_def)



lemma dec_crc_mode_holding [simp]: "dec_crc_mode (holding b) = None"
  by (simp add: holding_def FastMessageDecoder_def)

lemma fastMessageDecode_example_V1:
  "fastMessageDecode reference_ext
     \<lparr>hdr_version = 1, hdr_type = 1, hdr_status = 1, hdr_msgid = 7, hdr_crc = 62680,
      hdr_datalen = 37\<rparr> example_frame None
     = Inr (Message example_message)"
  by (simp add: fastMessageDecode_def validateCrc_def crc16_example_payload
        parse_example_payload example_message_def fp_offsets fp_header_consts Let_def)

lemma frame_message_example:
  "frame_message reference_ext None example_frame = Some example_message"
  using read_header_example_frame [of "[]"]
  by (simp add: frame_message_def fastMessageDecode_example_V1 [simplified])

lemma good_frame_example: "good_frame reference_ext None example_frame"
  using read_header_example_frame [of "[]"]
  by (simp add: good_frame_def frame_message_example fp_header_consts FP_HEADER_SZ_15
        FP_MSGID_MAX_def)

text \<open>
  The modes that the encoder does reject: a default mode that is set and is none of the
  three, and an effective mode that is none of the three. With V1\_V2 as the default
  mode and no mode in the message it does what it does with V1 as the default mode.
\<close>

lemma fastMessageEncode_crc_modes:
  "(truthy dflt \<and> dflt \<noteq> num FAST_CHECKSUM_V1 \<and> dflt \<noteq> num FAST_CHECKSUM_V2
      \<and> dflt \<noteq> num FAST_CHECKSUM_V1_V2 \<longrightarrow>
      isl (snd (fastMessageEncode E msg dflt)))
   \<and> (effective_crc_mode msg dflt \<noteq> num FAST_CHECKSUM_V1
       \<and> effective_crc_mode msg dflt \<noteq> num FAST_CHECKSUM_V2
       \<and> effective_crc_mode msg dflt \<noteq> num FAST_CHECKSUM_V1_V2 \<longrightarrow>
      isl (snd (fastMessageEncode E msg dflt)))
   \<and> (\<not> truthy (crc_mode msg) \<longrightarrow>
      fastMessageEncode E msg (num FAST_CHECKSUM_V1_V2)
        = fastMessageEncode E msg (num FAST_CHECKSUM_V1))"
proof (intro conjI impI)
  assume "truthy dflt \<and> dflt \<noteq> num FAST_CHECKSUM_V1 \<and> dflt \<noteq> num FAST_CHECKSUM_V2
      \<and> dflt \<noteq> num FAST_CHECKSUM_V1_V2"
  then have "\<not> default_crc_mode_ok dflt"
    by (simp add: default_crc_mode_ok_def)
  then show "isl (snd (fastMessageEncode E msg dflt))"
    using fastMessageEncode_rejects [of msg dflt E] by simp
next
  assume a: "effective_crc_mode msg dflt \<noteq> num FAST_CHECKSUM_V1
       \<and> effective_crc_mode msg dflt \<noteq> num FAST_CHECKSUM_V2
       \<and> effective_crc_mode msg dflt \<noteq> num FAST_CHECKSUM_V1_V2"
  show "isl (snd (fastMessageEncode E msg dflt))"
  proof (cases "snd (fastMessageEncode E msg dflt)")
    case (Inl e)
    then show ?thesis by simp
  next
    case (Inr buf)
    from fastMessageEncode_Inr [OF Inr] a show ?thesis
      by (auto split: if_splits)
  qed
next
  assume f: "\<not> truthy (crc_mode msg)"
  have e: "effective_crc_mode msg (num FAST_CHECKSUM_V1_V2) = num FAST_CHECKSUM_V1_V2"
    "effective_crc_mode msg (num FAST_CHECKSUM_V1) = num FAST_CHECKSUM_V1"
    using f by (simp_all add: effective_crc_mode_def js_or_def num_def fp_consts)
  have o: "default_crc_mode_ok (num FAST_CHECKSUM_V1_V2)"
    "default_crc_mode_ok (num FAST_CHECKSUM_V1)"
    by (simp_all add: default_crc_mode_ok_def)
  show "fastMessageEncode E msg (num FAST_CHECKSUM_V1_V2)
        = fastMessageEncode E msg (num FAST_CHECKSUM_V1)"
  proof (cases "msgid_ok (msgid msg) \<and> is_object (data msg) \<and> is_number (status msg)
              \<and> is_optional_number (crc_mode msg) \<and> status_ok (status msg)")
    case True
    with o fastMessageEncode_accepts [of msg "num FAST_CHECKSUM_V1_V2" E]
    obtain mid st d where
      m: "msgid msg = Some (JNum mid)" "status msg = Some (JNum st)" "data msg = Some d"
      and a: "fastMessageEncode E msg (num FAST_CHECKSUM_V1_V2)
                = encode_checked E msg (num FAST_CHECKSUM_V1_V2) mid st d"
      by blast
    from True o fastMessageEncode_accepts [of msg "num FAST_CHECKSUM_V1" E] m
    have b: "fastMessageEncode E msg (num FAST_CHECKSUM_V1)
                = encode_checked E msg (num FAST_CHECKSUM_V1) mid st d"
      by auto
    have "encode_checked E msg (num FAST_CHECKSUM_V1_V2) mid st d
            = encode_checked E msg (num FAST_CHECKSUM_V1) mid st d"
      by (simp only: encode_checked_def e) (simp add: fp_consts)
    with a b show ?thesis by simp
  next
    case False
    then show ?thesis
      by (auto simp: fastMessageEncode_def status_ok_def)
  qed
qed

section \<open>Theorems\<close>

subsection \<open>C1: decoding what was encoded\<close>

text \<open>
  C1 says that every valid logical message, encoded under a legal CRC mode, decodes to
  itself. The code does not do that in mode V1: for the DATA message with identifier 1
  and data \<^verbatim>\<open>{"d":[]}\<close>, whose two CRC16 values differ, \<^verbatim>\<open>fastMessageEncode\<close> with no
  mode given (so in mode V1) returns no buffer. It throws what
  \<^verbatim>\<open>mod_old_crc.crc16\<close> throws for the object, and otherwise the TypeError of the
  assignment to \<^verbatim>\<open>data.m.uts\<close>, since \<^verbatim>\<open>data.m\<close> is \<^verbatim>\<open>undefined\<close>. Where the
  encoder does return a buffer, the decoder returns the message: that is
  \<open>decode_encoded\<close>, with \<open>decode_encoded_V2\<close> and \<open>decode_encoded_V1\<close>.
\<close>

theorem encode_without_m_throws:
  "snd (fastMessageEncode
          (E\<lparr>old_crc16 := crc16_v1, new_crc16 := crc16_v2, JSON_stringify := stringify\<rparr>)
          \<lparr>msgid = num 1, status = num FP_STATUS_DATA,
           data = Some (JObj [(''d'', JArr [])]), crc_mode = None\<rparr> None)
   = (case old_crc16_object E (JObj [(''d'', JArr [])]) of
        Inl e \<Rightarrow> Inl e
      | Inr c \<Rightarrow> Inl TypeError)"
  by (simp add: fastMessageEncode_def num_def fp_consts js_or_def is_optional_number_def
        FP_MSGID_MAX_def findMatchingCrc_def findMatchingCrc_loop.simps [of _ _ 0]
        stringify_examples crc16_examples assign_m_uts_def Let_def
      del: stringify.simps split: sum.splits)

subsection \<open>C2: the CRC modes that the encoder rejects\<close>

text \<open>
  C2 says that \<^verbatim>\<open>fastMessageEncode\<close> fails when \<open>FAST_CHECKSUM_V1_V2\<close> is the mode of
  the message or the effective mode, as the comment above the function does (the valid
  values of \<^verbatim>\<open>crc_mode\<close> are V1 and V2, and any other value throws) and as
  \<^verbatim>\<open>fastMessageEncodeFail\<close> of test/tst.crc\_mode.js expects. The code does not do that:
  with \<open>FAST_CHECKSUM_V1_V2\<close> as its default mode, and also with \<open>FAST_CHECKSUM_V1_V2\<close>
  as the mode of the message, \<^verbatim>\<open>fastMessageEncode\<close> returns the frame of the example
  message.
\<close>

theorem encode_V1_V2_returns_frame:
  "effective_crc_mode example_message (num FAST_CHECKSUM_V1_V2) = num FAST_CHECKSUM_V1_V2
   \<and> snd (fastMessageEncode reference_ext example_message (num FAST_CHECKSUM_V1_V2))
       = Inr example_frame
   \<and> crc_mode (example_message\<lparr>crc_mode := num FAST_CHECKSUM_V1_V2\<rparr>)
       = num FAST_CHECKSUM_V1_V2
   \<and> snd (fastMessageEncode reference_ext
             (example_message\<lparr>crc_mode := num FAST_CHECKSUM_V1_V2\<rparr>) None)
       = Inr example_frame"
  by (simp add: effective_crc_mode_examples encode_example_V1_V2
        encode_example_per_message_V1_V2)

subsection \<open>C3: the matching-CRC search\<close>

text \<open>
  C3 says that the search falls back to the legacy CRC, and that the legacy CRC of the
  unchanged serialization is used when \<^verbatim>\<open>data.m.uts\<close> is absent. The code does not do
  that: for the message of test/tst.crc\_mode.js, with data \<^verbatim>\<open>["hello","world"]\<close>, whose
  CRC16 values are 10980 and 7500, \<^verbatim>\<open>fastMessageEncode\<close> in mode V1 returns no buffer
  but throws, as for C1. What the search returns when it does return is in
  \<open>findMatchingCrc_crc\<close>, and the bound of 500000 assignments in
  \<open>findMatchingCrc_mutates\<close>.
\<close>

theorem encode_hello_world_throws:
  "snd (fastMessageEncode
          (E\<lparr>old_crc16 := crc16_v1, new_crc16 := crc16_v2, JSON_stringify := stringify\<rparr>)
          \<lparr>msgid = num 1, status = num FP_STATUS_DATA,
           data = Some (JArr [JStr ''hello'', JStr ''world'']), crc_mode = None\<rparr> None)
   = (case old_crc16_object E (JArr [JStr ''hello'', JStr ''world'']) of
        Inl e \<Rightarrow> Inl e
      | Inr c \<Rightarrow> Inl TypeError)"
  by (simp add: fastMessageEncode_def num_def fp_consts js_or_def is_optional_number_def
        FP_MSGID_MAX_def findMatchingCrc_def findMatchingCrc_loop.simps [of _ _ 0]
        stringify_examples crc16_reference_vectors_aux assign_m_uts_def Let_def
      del: stringify.simps split: sum.splits)

subsection \<open>C4: the length of the encoded message\<close>




subsection \<open>C5: CRC validation in mode V1\_V2\<close>

text \<open>
  C5. In mode V1\_V2, for every payload and header CRC: when the legacy or the correct
  CRC16 of the payload is the header CRC, validation succeeds and the decoded CRC mode,
  which \<^verbatim>\<open>fastMessageDecode\<close> attaches to the message, is the variant that matches,
  V1\_V2 when both do; when neither matches, decoding fails with a \<open>bad_crc\<close> error
  that holds the expected and the two calculated values.
\<close>

theorem decode_V1_V2_crc:
  "(old_crc16 E payload = headerCrc \<and> new_crc16 E payload = headerCrc \<longrightarrow>
      validateCrc E (num FAST_CHECKSUM_V1_V2) headerCrc payload =
        Inr \<lparr>decodedCrcMode = Some FAST_CHECKSUM_V1_V2, error = None\<rparr>)
   \<and> (old_crc16 E payload = headerCrc \<and> new_crc16 E payload \<noteq> headerCrc \<longrightarrow>
      validateCrc E (num FAST_CHECKSUM_V1_V2) headerCrc payload =
        Inr \<lparr>decodedCrcMode = Some FAST_CHECKSUM_V1, error = None\<rparr>)
   \<and> (old_crc16 E payload \<noteq> headerCrc \<and> new_crc16 E payload = headerCrc \<longrightarrow>
      validateCrc E (num FAST_CHECKSUM_V1_V2) headerCrc payload =
        Inr \<lparr>decodedCrcMode = Some FAST_CHECKSUM_V2, error = None\<rparr>)
   \<and> (old_crc16 E payload \<noteq> headerCrc \<and> new_crc16 E payload \<noteq> headerCrc \<longrightarrow>
      validateCrc E (num FAST_CHECKSUM_V1_V2) headerCrc payload =
        Inr \<lparr>decodedCrcMode = None,
             error = Some (bad_crc headerCrc None (Some (old_crc16 E payload))
                             (Some (new_crc16 E payload)))\<rparr>)
   \<and> (length buffer = FP_OFF_DATA + hdr_datalen hdr
        \<and> payload = utf8_toString E (drop FP_OFF_DATA buffer) \<and> headerCrc = hdr_crc hdr \<longrightarrow>
        (old_crc16 E payload \<noteq> headerCrc \<and> new_crc16 E payload \<noteq> headerCrc \<longrightarrow>
           fastMessageDecode E hdr buffer (num FAST_CHECKSUM_V1_V2) =
             Inr (Error (bad_crc headerCrc None (Some (old_crc16 E payload))
                           (Some (new_crc16 E payload)))))
        \<and> (\<forall>m. fastMessageDecode E hdr buffer (num FAST_CHECKSUM_V1_V2) = Inr (Message m) \<longrightarrow>
              (old_crc16 E payload = headerCrc \<or> new_crc16 E payload = headerCrc)
              \<and> crc_mode m =
                  num (if old_crc16 E payload = headerCrc \<and> new_crc16 E payload = headerCrc
                       then FAST_CHECKSUM_V1_V2
                       else if new_crc16 E payload = headerCrc then FAST_CHECKSUM_V2
                       else FAST_CHECKSUM_V1)))"
  using validateCrc_V1_V2_cases [of E payload headerCrc]
    fastMessageDecode_V1_V2 [of buffer hdr payload E headerCrc]
  by blast

theorem decode_V1_V2_crc_witness:
  "old_crc16 reference_ext example_payload = 62680
   \<and> new_crc16 reference_ext example_payload = 62680
   \<and> validateCrc reference_ext (num FAST_CHECKSUM_V1_V2) 62680 example_payload
       = Inr \<lparr>decodedCrcMode = Some FAST_CHECKSUM_V1_V2, error = None\<rparr>
   \<and> fastMessageDecode reference_ext (read_header example_frame) example_frame
         (num FAST_CHECKSUM_V1_V2)
       = Inr (Message (example_message\<lparr>crc_mode := num FAST_CHECKSUM_V1_V2\<rparr>))
   \<and> crc_mode (example_message\<lparr>crc_mode := num FAST_CHECKSUM_V1_V2\<rparr>)
       = num FAST_CHECKSUM_V1_V2
   \<and> validateCrc reference_ext (num FAST_CHECKSUM_V1_V2) 3121 ''{\"d\":[]}''
       = Inr \<lparr>decodedCrcMode = Some FAST_CHECKSUM_V2, error = None\<rparr>
   \<and> validateCrc reference_ext (num FAST_CHECKSUM_V1_V2) 16540 ''{\"d\":[]}''
       = Inr \<lparr>decodedCrcMode = Some FAST_CHECKSUM_V1, error = None\<rparr>
   \<and> validateCrc reference_ext (num FAST_CHECKSUM_V1_V2) 7 ''{\"d\":[]}''
       = Inr \<lparr>decodedCrcMode = None,
              error = Some (bad_crc 7 None (Some 16540) (Some 3121))\<rparr>"
proof -
  have c: "old_crc16 reference_ext example_payload = 62680"
    "new_crc16 reference_ext example_payload = 62680"
    "old_crc16 reference_ext ''{\"d\":[]}'' = 16540"
    "new_crc16 reference_ext ''{\"d\":[]}'' = 3121"
    by (simp_all add: crc16_example_payload crc16_examples)
  have d: "fastMessageDecode reference_ext (read_header example_frame) example_frame
         (num FAST_CHECKSUM_V1_V2)
       = Inr (Message (example_message\<lparr>crc_mode := num FAST_CHECKSUM_V1_V2\<rparr>))"
    using read_header_example_frame [of "[]"]
    by (simp add: fastMessageDecode_example [simplified])
  have "validateCrc reference_ext (num FAST_CHECKSUM_V1_V2) 62680 example_payload
       = Inr \<lparr>decodedCrcMode = Some FAST_CHECKSUM_V1_V2, error = None\<rparr>"
    using decode_V1_V2_crc [of reference_ext example_payload 62680 example_frame
            "read_header example_frame"] c by simp
  moreover have "validateCrc reference_ext (num FAST_CHECKSUM_V1_V2) 3121 ''{\"d\":[]}''
       = Inr \<lparr>decodedCrcMode = Some FAST_CHECKSUM_V2, error = None\<rparr>"
    using decode_V1_V2_crc [of reference_ext "''{\"d\":[]}''" 3121 example_frame
            "read_header example_frame"] c by simp
  moreover have "validateCrc reference_ext (num FAST_CHECKSUM_V1_V2) 16540 ''{\"d\":[]}''
       = Inr \<lparr>decodedCrcMode = Some FAST_CHECKSUM_V1, error = None\<rparr>"
    using decode_V1_V2_crc [of reference_ext "''{\"d\":[]}''" 16540 example_frame
            "read_header example_frame"] c by simp
  moreover have "validateCrc reference_ext (num FAST_CHECKSUM_V1_V2) 7 ''{\"d\":[]}''
       = Inr \<lparr>decodedCrcMode = None,
              error = Some (bad_crc 7 None (Some 16540) (Some 3121))\<rparr>"
    using decode_V1_V2_crc [of reference_ext "''{\"d\":[]}''" 7 example_frame
            "read_header example_frame"] c by simp
  ultimately show ?thesis
    using c(1,2) d by simp
qed

subsection \<open>C6: the reference vectors\<close>

text \<open>
  C6. For the payload \<^verbatim>\<open>["hello","world"]\<close>, which is 17 bytes of UTF-8, the legacy
  (V1) CRC16 function returns 10980 and the correct (V2) CRC16 function returns 7500.
\<close>

theorem crc16_reference_vectors:
  "length ''[\"hello\",\"world\"]'' = 17
   \<and> crc16_v1 ''[\"hello\",\"world\"]'' = 10980
   \<and> crc16_v2 ''[\"hello\",\"world\"]'' = 7500"
  by (simp add: crc16_v1_def crc16_v1_add_def xmodem_shift_def
        crc16_v2_def crc16_v2_add_def arc_shift_def)

subsection \<open>C7: the checks of the payload\<close>



subsection \<open>C8: the checks of the header\<close>

text \<open>
  C8. The decoder checks the header of every frame that it comes to, the first of a
  call as well as those behind it. Whenever its buffer holds any number of complete
  frames that it accepts, followed by at least 15 bytes, it checks the header in these
  bytes in this order and fails with the first error that applies: a version byte other
  than 1 gives \<open>unsupported_version\<close>, a type byte other than 1 gives
  \<open>unsupported_type\<close>, a status byte other than 1, 2 and 3 gives \<open>unsupported_status\<close>,
  and a message identifier above \<open>2 ^ 31 - 1\<close> gives \<open>invalid_msgid\<close>. The messages
  pushed are those of the frames in front, and no other; the error becomes \<open>md_error\<close>
  and is handed to the callback.
\<close>

theorem decode_header_checks:
  assumes "md_buffer s = Some (concat frames @ rest)"
    and "md_havebytes s = length (concat frames @ rest)"
    and "md_error s = None" and "\<not> md_pushing s" and "md_version s = None"
    and "\<forall>f\<in>set frames. good_frame E (dec_crc_mode s) f"
    and "FP_HEADER_SZ \<le> length rest"
  shows
    "(hdr_version (read_header rest) \<noteq> FP_VERSION_CURRENT \<longrightarrow>
        map Some (fst (decode E s)) = map (frame_message E (dec_crc_mode s)) frames
        \<and> md_error (fst (snd (decode E s)))
            = Some (unsupported_version (hdr_version (read_header rest)))
        \<and> snd (snd (decode E s))
            = Inr (Called (Some (unsupported_version (hdr_version (read_header rest))))))
     \<and> (hdr_version (read_header rest) = FP_VERSION_CURRENT
         \<and> hdr_type (read_header rest) \<noteq> FP_TYPE_JSON \<longrightarrow>
        map Some (fst (decode E s)) = map (frame_message E (dec_crc_mode s)) frames
        \<and> md_error (fst (snd (decode E s)))
            = Some (unsupported_type (hdr_type (read_header rest)))
        \<and> snd (snd (decode E s))
            = Inr (Called (Some (unsupported_type (hdr_type (read_header rest))))))
     \<and> (hdr_version (read_header rest) = FP_VERSION_CURRENT
         \<and> hdr_type (read_header rest) = FP_TYPE_JSON
         \<and> hdr_status (read_header rest) \<noteq> FP_STATUS_DATA
         \<and> hdr_status (read_header rest) \<noteq> FP_STATUS_END
         \<and> hdr_status (read_header rest) \<noteq> FP_STATUS_ERROR \<longrightarrow>
        map Some (fst (decode E s)) = map (frame_message E (dec_crc_mode s)) frames
        \<and> md_error (fst (snd (decode E s)))
            = Some (unsupported_status (hdr_status (read_header rest)))
        \<and> snd (snd (decode E s))
            = Inr (Called (Some (unsupported_status (hdr_status (read_header rest))))))
     \<and> (hdr_version (read_header rest) = FP_VERSION_CURRENT
         \<and> hdr_type (read_header rest) = FP_TYPE_JSON
         \<and> (hdr_status (read_header rest) = FP_STATUS_DATA
              \<or> hdr_status (read_header rest) = FP_STATUS_END
              \<or> hdr_status (read_header rest) = FP_STATUS_ERROR)
         \<and> FP_MSGID_MAX < hdr_msgid (read_header rest) \<longrightarrow>
        map Some (fst (decode E s)) = map (frame_message E (dec_crc_mode s)) frames
        \<and> md_error (fst (snd (decode E s)))
            = Some (invalid_msgid (hdr_msgid (read_header rest)))
        \<and> snd (snd (decode E s))
            = Inr (Called (Some (invalid_msgid (hdr_msgid (read_header rest))))))"
proof -
  note i = decode_iteration_header [where buf = rest and E = E]
  have v: "hdr_version (read_header rest) \<noteq> FP_VERSION_CURRENT \<longrightarrow>
        map Some (fst (decode E s)) = map (frame_message E (dec_crc_mode s)) frames
        \<and> md_error (fst (snd (decode E s)))
            = Some (unsupported_version (hdr_version (read_header rest)))
        \<and> snd (snd (decode E s))
            = Inr (Called (Some (unsupported_version (hdr_version (read_header rest)))))"
    by (rule impI, rule decode_frames_error [OF assms]) (blast intro: i(1))
  have t: "hdr_version (read_header rest) = FP_VERSION_CURRENT
         \<and> hdr_type (read_header rest) \<noteq> FP_TYPE_JSON \<longrightarrow>
        map Some (fst (decode E s)) = map (frame_message E (dec_crc_mode s)) frames
        \<and> md_error (fst (snd (decode E s)))
            = Some (unsupported_type (hdr_type (read_header rest)))
        \<and> snd (snd (decode E s))
            = Inr (Called (Some (unsupported_type (hdr_type (read_header rest)))))"
    by (rule impI, rule decode_frames_error [OF assms]) (blast intro: i(2))
  have st: "hdr_version (read_header rest) = FP_VERSION_CURRENT
         \<and> hdr_type (read_header rest) = FP_TYPE_JSON
         \<and> hdr_status (read_header rest) \<noteq> FP_STATUS_DATA
         \<and> hdr_status (read_header rest) \<noteq> FP_STATUS_END
         \<and> hdr_status (read_header rest) \<noteq> FP_STATUS_ERROR \<longrightarrow>
        map Some (fst (decode E s)) = map (frame_message E (dec_crc_mode s)) frames
        \<and> md_error (fst (snd (decode E s)))
            = Some (unsupported_status (hdr_status (read_header rest)))
        \<and> snd (snd (decode E s))
            = Inr (Called (Some (unsupported_status (hdr_status (read_header rest)))))"
    by (rule impI, rule decode_frames_error [OF assms]) (blast intro: i(3))
  have mi: "hdr_version (read_header rest) = FP_VERSION_CURRENT
         \<and> hdr_type (read_header rest) = FP_TYPE_JSON
         \<and> (hdr_status (read_header rest) = FP_STATUS_DATA
              \<or> hdr_status (read_header rest) = FP_STATUS_END
              \<or> hdr_status (read_header rest) = FP_STATUS_ERROR)
         \<and> FP_MSGID_MAX < hdr_msgid (read_header rest) \<longrightarrow>
        map Some (fst (decode E s)) = map (frame_message E (dec_crc_mode s)) frames
        \<and> md_error (fst (snd (decode E s)))
            = Some (invalid_msgid (hdr_msgid (read_header rest)))
        \<and> snd (snd (decode E s))
            = Inr (Called (Some (invalid_msgid (hdr_msgid (read_header rest)))))"
    by (rule impI, rule decode_frames_error [OF assms]) (blast intro: i(4))
  show ?thesis
    by (rule conjI, rule v, rule conjI, rule t, rule conjI, rule st, rule mi)
qed

theorem decode_header_checks_witness:
  "fst (decode reference_ext
          (holding (example_frame @ [2, 1, 1, 0, 0, 0, 0, 0, 0, 0, 0, 0, 0, 0, 0])))
     = [example_message]
   \<and> snd (snd (decode reference_ext
          (holding (example_frame @ [2, 1, 1, 0, 0, 0, 0, 0, 0, 0, 0, 0, 0, 0, 0]))))
     = Inr (Called (Some (unsupported_version 2)))
   \<and> fst (decode reference_ext
          (holding (example_frame @ [1, 0, 1, 0, 0, 0, 0, 0, 0, 0, 0, 0, 0, 0, 0])))
     = [example_message]
   \<and> snd (snd (decode reference_ext
          (holding (example_frame @ [1, 0, 1, 0, 0, 0, 0, 0, 0, 0, 0, 0, 0, 0, 0]))))
     = Inr (Called (Some (unsupported_type 0)))
   \<and> fst (decode reference_ext
          (holding (example_frame @ [1, 1, 4, 0, 0, 0, 0, 0, 0, 0, 0, 0, 0, 0, 0])))
     = [example_message]
   \<and> snd (snd (decode reference_ext
          (holding (example_frame @ [1, 1, 4, 0, 0, 0, 0, 0, 0, 0, 0, 0, 0, 0, 0]))))
     = Inr (Called (Some (unsupported_status 4)))
   \<and> fst (decode reference_ext
          (holding (example_frame @ [1, 1, 3, 128, 0, 0, 0, 0, 0, 0, 0, 0, 0, 0, 0])))
     = [example_message]
   \<and> snd (snd (decode reference_ext
          (holding (example_frame @ [1, 1, 3, 128, 0, 0, 0, 0, 0, 0, 0, 0, 0, 0, 0]))))
     = Inr (Called (Some (invalid_msgid 2147483648)))
   \<and> snd (snd (decode reference_ext
          (holding [1, 1, 3, 128, 0, 0, 0, 0, 0, 0, 0, 0, 0, 0, 0])))
     = Inr (Called (Some (invalid_msgid 2147483648)))"
proof -
  have r: "read_header [2, 1, 1, 0, 0, 0, 0, 0, 0, 0, 0, 0, 0, 0, 0]
             = \<lparr>hdr_version = 2, hdr_type = 1, hdr_status = 1, hdr_msgid = 0, hdr_crc = 0,
                hdr_datalen = 0\<rparr>"
    "read_header [1, 0, 1, 0, 0, 0, 0, 0, 0, 0, 0, 0, 0, 0, 0]
             = \<lparr>hdr_version = 1, hdr_type = 0, hdr_status = 1, hdr_msgid = 0, hdr_crc = 0,
                hdr_datalen = 0\<rparr>"
    "read_header [1, 1, 4, 0, 0, 0, 0, 0, 0, 0, 0, 0, 0, 0, 0]
             = \<lparr>hdr_version = 1, hdr_type = 1, hdr_status = 4, hdr_msgid = 0, hdr_crc = 0,
                hdr_datalen = 0\<rparr>"
    "read_header [1, 1, 3, 128, 0, 0, 0, 0, 0, 0, 0, 0, 0, 0, 0]
             = \<lparr>hdr_version = 1, hdr_type = 1, hdr_status = 3, hdr_msgid = 2147483648,
                hdr_crc = 0, hdr_datalen = 0\<rparr>"
    by (simp_all add: read_header_def readUInt8_def readUInt32BE_def fp_offsets)
  have g: "\<forall>f\<in>set [example_frame]. good_frame reference_ext None f"
    by (simp add: good_frame_example)
  have x: "xs = [example_message]"
    if "map Some xs = map (frame_message reference_ext None) [example_frame]" for xs
    using that by (auto simp: frame_message_example map_eq_Cons_conv)
  have a: "fst (decode reference_ext
              (holding (example_frame @ [2, 1, 1, 0, 0, 0, 0, 0, 0, 0, 0, 0, 0, 0, 0])))
             = [example_message]
           \<and> snd (snd (decode reference_ext
              (holding (example_frame @ [2, 1, 1, 0, 0, 0, 0, 0, 0, 0, 0, 0, 0, 0, 0]))))
             = Inr (Called (Some (unsupported_version 2)))"
    using decode_header_checks
            [of "holding (example_frame @ [2, 1, 1, 0, 0, 0, 0, 0, 0, 0, 0, 0, 0, 0, 0])"
                "[example_frame]" "[2, 1, 1, 0, 0, 0, 0, 0, 0, 0, 0, 0, 0, 0, 0]"
                reference_ext] g
    by (simp add: r FP_HEADER_SZ_15 fp_header_consts x)
  have b: "fst (decode reference_ext
              (holding (example_frame @ [1, 0, 1, 0, 0, 0, 0, 0, 0, 0, 0, 0, 0, 0, 0])))
             = [example_message]
           \<and> snd (snd (decode reference_ext
              (holding (example_frame @ [1, 0, 1, 0, 0, 0, 0, 0, 0, 0, 0, 0, 0, 0, 0]))))
             = Inr (Called (Some (unsupported_type 0)))"
    using decode_header_checks
            [of "holding (example_frame @ [1, 0, 1, 0, 0, 0, 0, 0, 0, 0, 0, 0, 0, 0, 0])"
                "[example_frame]" "[1, 0, 1, 0, 0, 0, 0, 0, 0, 0, 0, 0, 0, 0, 0]"
                reference_ext] g
    by (simp add: r FP_HEADER_SZ_15 fp_header_consts x)
  have c: "fst (decode reference_ext
              (holding (example_frame @ [1, 1, 4, 0, 0, 0, 0, 0, 0, 0, 0, 0, 0, 0, 0])))
             = [example_message]
           \<and> snd (snd (decode reference_ext
              (holding (example_frame @ [1, 1, 4, 0, 0, 0, 0, 0, 0, 0, 0, 0, 0, 0, 0]))))
             = Inr (Called (Some (unsupported_status 4)))"
    using decode_header_checks
            [of "holding (example_frame @ [1, 1, 4, 0, 0, 0, 0, 0, 0, 0, 0, 0, 0, 0, 0])"
                "[example_frame]" "[1, 1, 4, 0, 0, 0, 0, 0, 0, 0, 0, 0, 0, 0, 0]"
                reference_ext] g
    by (simp add: r FP_HEADER_SZ_15 fp_header_consts x)
  have d: "fst (decode reference_ext
              (holding (example_frame @ [1, 1, 3, 128, 0, 0, 0, 0, 0, 0, 0, 0, 0, 0, 0])))
             = [example_message]
           \<and> snd (snd (decode reference_ext
              (holding (example_frame @ [1, 1, 3, 128, 0, 0, 0, 0, 0, 0, 0, 0, 0, 0, 0]))))
             = Inr (Called (Some (invalid_msgid 2147483648)))"
    using decode_header_checks
            [of "holding (example_frame @ [1, 1, 3, 128, 0, 0, 0, 0, 0, 0, 0, 0, 0, 0, 0])"
                "[example_frame]" "[1, 1, 3, 128, 0, 0, 0, 0, 0, 0, 0, 0, 0, 0, 0]"
                reference_ext] g
    by (simp add: r FP_HEADER_SZ_15 fp_header_consts FP_MSGID_MAX_def x)
  have e: "snd (snd (decode reference_ext
                  (holding [1, 1, 3, 128, 0, 0, 0, 0, 0, 0, 0, 0, 0, 0, 0])))
             = Inr (Called (Some (invalid_msgid 2147483648)))"
    using decode_header_checks
            [of "holding [1, 1, 3, 128, 0, 0, 0, 0, 0, 0, 0, 0, 0, 0, 0]"
                "[]" "[1, 1, 3, 128, 0, 0, 0, 0, 0, 0, 0, 0, 0, 0, 0]" reference_ext]
    by (simp add: r FP_HEADER_SZ_15 fp_header_consts FP_MSGID_MAX_def)
  from a b c d e show ?thesis by simp
qed

subsection \<open>C9: what the decoder emits\<close>

text \<open>
  C9. Every message that the decoder pushes, on a chunk or at the end of the input, is
  what \<^verbatim>\<open>fastMessageDecode\<close> returns for a complete frame with a valid header, and is
  a fully validated logical message. Once \<open>md_error\<close> is set the decoder pushes no
  further message and keeps the error. At the end of the input, when no error was set
  before and the loop sets none and bytes are still buffered, the decoder fails with
  \<open>incomplete_message\<close>; so a flush that reports no error has consumed every byte.
\<close>

theorem decoder_emits_validated_or_fails:
  "(\<forall>m \<in> set (fst (transform E s chunk)) \<union> set (fst (flush E s)).
      validated_frame E (dec_crc_mode s) m \<and> fully_validated m)
   \<and> (md_error s \<noteq> None \<longrightarrow>
        fst (transform E s chunk) = []
        \<and> md_error (fst (snd (transform E s chunk))) = md_error s
        \<and> fst (flush E s) = []
        \<and> md_error (fst (snd (flush E s))) = md_error s)
   \<and> (md_error s = None \<and> \<not> md_pushing s
        \<and> decode_loop E (s\<lparr>md_done := True\<rparr>) = (msgs, s1, None)
        \<and> md_error s1 = None \<and> 0 < md_havebytes s1 \<longrightarrow>
        flush E s = (msgs, s1\<lparr>md_error := Some incomplete_message\<rparr>,
                     Inr (Called (Some incomplete_message))))
   \<and> (md_error s = None \<and> \<not> md_pushing s
        \<and> snd (snd (flush E s)) = Inr (Called None) \<longrightarrow>
        md_havebytes (fst (snd (flush E s))) = 0)"
proof (intro conjI ballI impI)
  fix m
  assume "m \<in> set (fst (transform E s chunk)) \<union> set (fst (flush E s))"
  then have v: "validated_frame E (dec_crc_mode s) m"
    using transform_messages [of m E s chunk] flush_messages [of m E s] by blast
  then show "validated_frame E (dec_crc_mode s) m" .
  from v show "fully_validated m" by (rule validated_frame_fully_validated)
next
  assume "md_error s \<noteq> None"
  then show "fst (transform E s chunk) = []"
    and "md_error (fst (snd (transform E s chunk))) = md_error s"
    and "fst (flush E s) = []"
    and "md_error (fst (snd (flush E s))) = md_error s"
    using transform_latched [of s E chunk] flush_latched [of s E] by simp_all
next
  assume "md_error s = None \<and> \<not> md_pushing s
        \<and> decode_loop E (s\<lparr>md_done := True\<rparr>) = (msgs, s1, None)
        \<and> md_error s1 = None \<and> 0 < md_havebytes s1"
  then show "flush E s = (msgs, s1\<lparr>md_error := Some incomplete_message\<rparr>,
                     Inr (Called (Some incomplete_message)))"
    using flush_incomplete [of s E msgs s1] by simp
next
  assume a: "md_error s = None \<and> \<not> md_pushing s
        \<and> snd (snd (flush E s)) = Inr (Called None)"
  obtain ms s' r where f: "flush E s = (ms, s', r)"
    by (cases "flush E s") auto
  with a have "flush E s = (ms, s', Inr (Called None))" by simp
  with a flush_consumed_or_failed [of s E ms s'] have "md_havebytes s' = 0" by simp
  with f show "md_havebytes (fst (snd (flush E s))) = 0" by simp
qed

theorem decoder_emits_validated_or_fails_witness:
  "fst (transform reference_ext (FastMessageDecoder (num FAST_CHECKSUM_V1_V2)) example_chunk)
     = [example_message\<lparr>crc_mode := num FAST_CHECKSUM_V1_V2\<rparr>]
   \<and> fully_validated (example_message\<lparr>crc_mode := num FAST_CHECKSUM_V1_V2\<rparr>)
   \<and> md_error example_decoder = None \<and> \<not> md_pushing example_decoder
   \<and> 0 < md_havebytes example_decoder
   \<and> flush reference_ext example_decoder
       = ([], example_decoder\<lparr>md_done := True, md_error := Some incomplete_message\<rparr>,
          Inr (Called (Some incomplete_message)))
   \<and> fst (transform reference_ext
             (example_decoder\<lparr>md_done := True, md_error := Some incomplete_message\<rparr>)
             example_chunk) = []"
proof -
  have t: "fst (transform reference_ext (FastMessageDecoder (num FAST_CHECKSUM_V1_V2))
                  example_chunk)
             = [example_message\<lparr>crc_mode := num FAST_CHECKSUM_V1_V2\<rparr>]"
    by (simp add: transform_example)
  have v: "fully_validated (example_message\<lparr>crc_mode := num FAST_CHECKSUM_V1_V2\<rparr>)"
    using decoder_emits_validated_or_fails
            [of reference_ext "FastMessageDecoder (num FAST_CHECKSUM_V1_V2)" example_chunk]
    by (simp add: t)
  have e: "md_error example_decoder = None" "\<not> md_pushing example_decoder"
    "0 < md_havebytes example_decoder"
    by (simp_all add: example_decoder_def FastMessageDecoder_def)
  have l: "fst (transform reference_ext
             (example_decoder\<lparr>md_done := True, md_error := Some incomplete_message\<rparr>)
             example_chunk) = []"
    using decoder_emits_validated_or_fails
            [of reference_ext
               "example_decoder\<lparr>md_done := True, md_error := Some incomplete_message\<rparr>"
               example_chunk]
    by simp
  from t v e l show ?thesis
    by (simp add: flush_example)
qed

subsection \<open>C10: the effect of encoding on the message\<close>




end
